theory Spec2Isabelle
  imports Complex_Main
begin

section \<open>Market-data feed of the mobile trading dashboard\<close>

text \<open>
  A shallow embedding of \<^verbatim>\<open>src/contexts/WebSocketContext.tsx\<close> and of the
  asset-type handler of the settings screen.

  Conventions of the embedding.
  \<^item> A JavaScript number is represented by the rational it denotes (a \<^typ>\<open>rat\<close>);
    \<^verbatim>\<open>NaN\<close>, the infinities and the sign of zero are left out. An arithmetic
    operation of the source is the exact operation followed by \<open>binary64\<close>, the
    rounding to the nearest double. The strings of an exchange message are represented
    by the numbers \<^verbatim>\<open>parseFloat\<close> reads from them.
  \<^item> \<^verbatim>\<open>Math.random()\<close> is a stream \<open>rnd :: nat \<Rightarrow> rat\<close> handed to the
    function that draws from it: \<open>rnd 0\<close> is its first draw, \<open>rnd 1\<close> the second.
    \<^verbatim>\<open>Date.now()\<close> is a parameter \<open>now :: int\<close>.
  \<^item> The React state cells and refs of the provider component are the fields of the
    record \<open>feed\<close>. A callback reads the provider, asset type, symbol and order book
    of the render that created it, so these are parameters of the callbacks, and a
    socket keeps the values its handlers captured.
  \<^item> A \<^verbatim>\<open>TypeError\<close> thrown by a callback is the value \<open>Inl TypeError\<close>.
\<close>

subsection \<open>Data model\<close>

type_synonym level = "rat \<times> rat"

record OrderBookData =
  bids :: "level list"
  asks :: "level list"
  lastUpdateId :: int

record Trade =
  trade_id :: string
  price :: rat
  amount :: rat
  time :: int
  isBuyerMaker :: bool

datatype AssetType = Crypto | Stock

datatype DataProvider = Binance | Alpaca | Polygon | Demo

datatype error = TypeError

text \<open>
  The payload \<^verbatim>\<open>message.data\<close> of a stream message. \<open>d_e\<close> is \<^verbatim>\<open>data.e\<close>;
  \<open>d_b\<close> and \<open>d_a\<close> are the bid and ask entries of a depth update, each a price and a
  size; \<open>d_t\<close>, \<open>d_p\<close>, \<open>d_q\<close>, \<open>d_T\<close>, \<open>d_m\<close> are the fields of a trade event.
\<close>

record WsData =
  d_e :: string
  d_b :: "level list"
  d_a :: "level list"
  d_t :: nat
  d_p :: rat
  d_q :: rat
  d_T :: int
  d_m :: bool

subsection \<open>Numbers of the host language\<close>

text \<open>
  Rounding to the nearest double. \<open>exponent a\<close> is the \<open>e\<close> with
  \<open>2\<^sup>e \<le> a < 2\<^sup>e\<^sup>+\<^sup>1\<close> for a positive \<open>a\<close>; \<open>ulp a\<close> is the distance of
  neighbouring doubles at \<open>a\<close> (53 significant bits, and no exponent below -1022);
  \<open>roundEven\<close> rounds to the nearest integer, to the even one on a tie. A result
  beyond the largest double, which the code turns into an infinity, is left out.
\<close>

fun bitLength :: "nat \<Rightarrow> nat" where
  "bitLength n = (if n = 0 then 0 else Suc (bitLength (n div 2)))"

definition exponent :: "rat \<Rightarrow> int" where
  "exponent a =
     (if 1 \<le> a then int (bitLength (nat \<lfloor>a\<rfloor>)) - 1
      else - int (bitLength (nat (\<lceil>1 / a\<rceil> - 1))))"

definition roundEven :: "rat \<Rightarrow> int" where
  "roundEven q =
     (let n = \<lfloor>q\<rfloor>; r = q - of_int n in
      if r < 1 / 2 then n else if 1 / 2 < r then n + 1 else if even n then n else n + 1)"

definition ulp :: "rat \<Rightarrow> rat" where
  "ulp a = 2 powi (max (exponent a) (- 1022) - 52)"

definition binary64 :: "rat \<Rightarrow> rat" where
  "binary64 x =
     (if x = 0 then 0
      else sgn x * (of_int (roundEven (\<bar>x\<bar> / ulp \<bar>x\<bar>)) * ulp \<bar>x\<bar>))"

text \<open>
  \<^verbatim>\<open>x.toFixed(2)\<close> as the number its digits denote: the nearest multiple of 1/100 to
  the exact value of the double, the larger one on a tie, computed on the absolute
  value with the sign put back; from \<open>10\<^sup>2\<^sup>1\<close> on the digits are those of \<open>x\<close>
  itself. \<open>parseFixed2\<close> is \<^verbatim>\<open>parseFloat(x.toFixed(2))\<close>.
\<close>

definition toFixed2 :: "rat \<Rightarrow> rat" where
  "toFixed2 x =
     (if 10 ^ 21 \<le> \<bar>x\<bar> then x
      else if x < 0 then - (of_int \<lfloor>(- x) * 100 + 1 / 2\<rfloor> / 100)
      else of_int \<lfloor>x * 100 + 1 / 2\<rfloor> / 100)"

definition parseFixed2 :: "rat \<Rightarrow> rat" where
  "parseFixed2 x = binary64 (toFixed2 x)"

subsection \<open>Array operations of the host language\<close>

text \<open>\<^verbatim>\<open>Array.prototype.findIndex\<close>: the first index whose element passes, or -1.\<close>

fun findIndex :: "('a \<Rightarrow> bool) \<Rightarrow> 'a list \<Rightarrow> int" where
  "findIndex P [] = -1"
| "findIndex P (x # xs) =
     (if P x then 0 else (let r = findIndex P xs in if r < 0 then -1 else r + 1))"

text \<open>
  \<^verbatim>\<open>Array.prototype.sort\<close> with a comparator: \<open>cmp x y > 0\<close> puts \<open>x\<close> after \<open>y\<close>,
  and elements that compare equal keep their order (the sort is stable). With a
  consistent comparator the result is determined, so a stable insertion sort gives it.
\<close>

fun insertBy :: "('a \<Rightarrow> 'a \<Rightarrow> rat) \<Rightarrow> 'a \<Rightarrow> 'a list \<Rightarrow> 'a list" where
  "insertBy cmp x [] = [x]"
| "insertBy cmp x (y # ys) = (if cmp x y \<le> 0 then x # y # ys else y # insertBy cmp x ys)"

definition sortBy :: "('a \<Rightarrow> 'a \<Rightarrow> rat) \<Rightarrow> 'a list \<Rightarrow> 'a list" where
  "sortBy cmp xs = foldr (insertBy cmp) xs []"

text \<open>\<^verbatim>\<open>Number.prototype.toString\<close> of a non-negative integer.\<close>

fun toString :: "nat \<Rightarrow> string" where
  "toString n =
     (if n < 10 then [char_of (48 + n)] else toString (n div 10) @ [char_of (48 + n mod 10)])"

subsection \<open>Incremental order-book update and trade buffering\<close>

text \<open>
  The callback of \<^verbatim>\<open>data.b.forEach\<close> in \<^verbatim>\<open>processOrderBookUpdate\<close>: a size of zero
  filters the price out of the bids, another size replaces the level found by
  \<^verbatim>\<open>findIndex\<close> or is pushed at the end.
\<close>

definition applyBid :: "level list \<Rightarrow> level \<Rightarrow> level list" where
  "applyBid bs entry =
     (let priceNum = fst entry; amountNum = snd entry in
      if amountNum = 0 then filter (\<lambda>l. fst l \<noteq> priceNum) bs
      else (let index = findIndex (\<lambda>l. fst l = priceNum) bs in
            if index \<ge> 0 then bs[nat index := (priceNum, amountNum)]
            else bs @ [(priceNum, amountNum)]))"

text \<open>
  The body of \<^verbatim>\<open>processOrderBookUpdate\<close> on the book it copies: the bid entries are
  applied in order, then both sides are sorted (the comparators subtract two prices,
  and the sign of the rounded difference is the sign of the exact one). The ask
  entries \<open>d_a\<close> of the message are not read by the source (its line 183 is a
  comment), and neither is an update id.
\<close>

definition updateBook :: "OrderBookData \<Rightarrow> WsData \<Rightarrow> OrderBookData" where
  "updateBook ob msg =
     ob\<lparr>bids := sortBy (\<lambda>x y. fst y - fst x) (foldl applyBid (bids ob) (d_b msg)),
        asks := sortBy (\<lambda>x y. fst x - fst y) (asks ob)\<rparr>"

text \<open>
  \<^verbatim>\<open>[newTrade, ...prevTrades].slice(0, 100)\<close>, the update of the trade list in
  \<^verbatim>\<open>processTrade\<close> and in the demo timer.
\<close>

definition pushTrade :: "Trade \<Rightarrow> Trade list \<Rightarrow> Trade list" where
  "pushTrade newTrade prevTrades = take 100 (newTrade # prevTrades)"

definition processTrade :: "DataProvider \<Rightarrow> WsData \<Rightarrow> Trade list \<Rightarrow> Trade list" where
  "processTrade provider msg prevTrades =
     (if provider = Binance \<and> d_e msg = ''trade'' then
        pushTrade \<lparr>trade_id = toString (d_t msg), price = d_p msg, amount = d_q msg,
                   time = d_T msg, isBuyerMaker = d_m msg\<rparr> prevTrades
      else prevTrades)"

subsection \<open>Demo data generators\<close>

text \<open>
  The prices and the size pushed by one iteration of the \<^verbatim>\<open>for\<close> loop of
  \<^verbatim>\<open>generateDemoOrderBook\<close>: \<^verbatim>\<open>basePrice - spread - i * spread\<close>,
  \<^verbatim>\<open>basePrice + spread + i * spread\<close> and \<^verbatim>\<open>Math.random() * 1000\<close>, each
  evaluated from the left in doubles, written with two decimals and parsed.
\<close>

definition bidPrice :: "rat \<Rightarrow> rat \<Rightarrow> nat \<Rightarrow> rat" where
  "bidPrice basePrice spread i =
     parseFixed2 (binary64 (binary64 (basePrice - spread) - binary64 (of_nat i * spread)))"

definition askPrice :: "rat \<Rightarrow> rat \<Rightarrow> nat \<Rightarrow> rat" where
  "askPrice basePrice spread i =
     parseFixed2 (binary64 (binary64 (basePrice + spread) + binary64 (of_nat i * spread)))"

definition demoSize :: "rat \<Rightarrow> rat" where
  "demoSize r = parseFixed2 (binary64 (r * 1000))"

text \<open>
  The loop itself: iteration \<open>i\<close> pushes one bid and one ask, and draws the bid's size
  before the ask's.
\<close>

function genLoop ::
  "rat \<Rightarrow> rat \<Rightarrow> (nat \<Rightarrow> rat) \<Rightarrow> nat \<Rightarrow> level list \<Rightarrow> level list \<Rightarrow> level list \<times> level list"
where
  "genLoop basePrice spread rnd i bidAcc askAcc =
     (if i < 20 then
        genLoop basePrice spread rnd (Suc i)
          (bidAcc @ [(bidPrice basePrice spread i, demoSize (rnd (2 * i)))])
          (askAcc @ [(askPrice basePrice spread i, demoSize (rnd (2 * i + 1)))])
      else (bidAcc, askAcc))"
  by pat_completeness auto
termination
  by (relation "measure (\<lambda>(basePrice, spread, rnd, i, bidAcc, askAcc). 20 - i)") auto

definition generateDemoOrderBook :: "rat \<Rightarrow> (nat \<Rightarrow> rat) \<Rightarrow> int \<Rightarrow> OrderBookData" where
  "generateDemoOrderBook basePrice rnd now =
     (let spread = binary64 (basePrice * binary64 (1 / 10000));
          r = genLoop basePrice spread rnd 0 [] []
      in \<lparr>bids = fst r, asks = snd r, lastUpdateId = now\<rparr>)"

definition generateDemoTrade :: "rat \<Rightarrow> nat \<Rightarrow> (nat \<Rightarrow> rat) \<Rightarrow> int \<Rightarrow> Trade" where
  "generateDemoTrade basePrice n rnd now =
     (let variance = binary64 (basePrice * binary64 (1 / 1000))
      in \<lparr>trade_id = ''trade-'' @ toString n,
          price = parseFixed2 (binary64 (basePrice + binary64 (binary64 (rnd 0 - 1 / 2) * variance))),
          amount = parseFixed2 (binary64 (rnd 1 * 100)),
          time = now,
          isBuyerMaker = (rnd 2 > 1 / 2)\<rparr>)"

definition DEFAULT_SYMBOLS :: "AssetType \<Rightarrow> string" where
  "DEFAULT_SYMBOLS t = (case t of Crypto \<Rightarrow> ''BTCUSDT'' | Stock \<Rightarrow> ''AAPL'')"

definition DEMO_PRICES :: "string \<rightharpoonup> rat" where
  "DEMO_PRICES =
     [''BTCUSDT'' \<mapsto> 45000, ''ETHUSDT'' \<mapsto> 2500, ''AAPL'' \<mapsto> 175, ''GOOGL'' \<mapsto> 140,
      ''TSLA'' \<mapsto> 250, ''MSFT'' \<mapsto> 380, ''AMZN'' \<mapsto> 170, ''NVDA'' \<mapsto> 480]"

text \<open>\<^verbatim>\<open>DEMO_PRICES[symbol] || 100\<close>: a missing or zero entry gives 100.\<close>

definition demoBasePrice :: "string \<Rightarrow> rat" where
  "demoBasePrice symb =
     (case DEMO_PRICES symb of None \<Rightarrow> 100 | Some p \<Rightarrow> if p = 0 then 100 else p)"

subsection \<open>State of the provider component\<close>

datatype ReadyState = CONNECTING | OPEN | CLOSING | CLOSED

text \<open>
  A \<^verbatim>\<open>WebSocket\<close> created by \<^verbatim>\<open>connectBinance\<close>: its ready state, the symbol of
  its streams, and the provider and the order book of the render whose
  \<^verbatim>\<open>processOrderBookUpdate\<close> and \<^verbatim>\<open>processTrade\<close> its message handler calls.
\<close>

record socket =
  readyState :: ReadyState
  capturedProvider :: DataProvider
  capturedSymbol :: string
  capturedBook :: "OrderBookData option"

text \<open>
  \<open>orderBook\<close>, \<open>trades\<close> and \<open>isConnected\<close> are state cells; \<open>tradeCounter\<close>, \<open>ws\<close>,
  \<open>reconnectTimeout\<close> and \<open>demoInterval\<close> are the refs (a socket is named by its index
  in \<open>sockets\<close>, a timer by its handle). The rest is the environment: \<open>sockets\<close> holds
  every \<^verbatim>\<open>WebSocket\<close> created so far, \<open>intervals\<close> the live \<^verbatim>\<open>setInterval\<close> timers
  with the base price their callback captured, \<open>timeouts\<close> the handles of the
  pending \<^verbatim>\<open>setTimeout\<close> timers, and \<open>nextTimer\<close> the next fresh handle (handles
  are positive, so a ref that holds one is truthy). The market summary and the
  market-hours flag are not part of the model, and neither are the error and close
  events of a socket (the close event starts the reconnect timer).
\<close>

record feed =
  orderBook :: "OrderBookData option"
  trades :: "Trade list"
  isConnected :: bool
  tradeCounter :: nat
  ws :: "nat option"
  reconnectTimeout :: "nat option"
  demoInterval :: "nat option"
  sockets :: "socket list"
  intervals :: "(nat \<times> rat) list"
  timeouts :: "nat list"
  nextTimer :: nat

definition initialFeed :: feed where
  "initialFeed =
     \<lparr>orderBook = None, trades = [], isConnected = False, tradeCounter = 0, ws = None,
      reconnectTimeout = None, demoInterval = None, sockets = [], intervals = [],
      timeouts = [], nextTimer = 1\<rparr>"

text \<open>
  \<^verbatim>\<open>WebSocket.close()\<close> starts the closing handshake of a socket that is connecting
  or open and does nothing otherwise; \<^verbatim>\<open>clearInterval\<close> and \<^verbatim>\<open>clearTimeout\<close> drop
  the timer with the given handle.
\<close>

definition wsClose :: "nat \<Rightarrow> socket list \<Rightarrow> socket list" where
  "wsClose i socks =
     (if i < length socks \<and>
         (readyState (socks ! i) = CONNECTING \<or> readyState (socks ! i) = OPEN)
      then socks[i := (socks ! i)\<lparr>readyState := CLOSING\<rparr>] else socks)"

definition clearInterval :: "nat \<Rightarrow> (nat \<times> rat) list \<Rightarrow> (nat \<times> rat) list" where
  "clearInterval h ts = filter (\<lambda>t. fst t \<noteq> h) ts"

definition clearTimeout :: "nat \<Rightarrow> nat list \<Rightarrow> nat list" where
  "clearTimeout h ts = filter (\<lambda>t. t \<noteq> h) ts"

subsection \<open>Message handlers\<close>

text \<open>
  \<^verbatim>\<open>processOrderBookUpdate\<close> of a render with the given provider and order book (the
  dependencies of the callback): it copies that book, not the one stored when the
  message arrives. When the render had no book, the copy \<^verbatim>\<open>{ ...null }\<close> is an
  object without \<^verbatim>\<open>bids\<close>, and the first use of \<^verbatim>\<open>newOrderBook.bids\<close> throws. The
  copy is shallow: index assignment, \<^verbatim>\<open>push\<close> and \<^verbatim>\<open>sort\<close> change the arrays of
  the copied book in place, so \<open>book\<close> is the content of that book when the message is
  handled.
\<close>

definition processOrderBookUpdate ::
  "DataProvider \<Rightarrow> OrderBookData option \<Rightarrow> WsData \<Rightarrow> feed \<Rightarrow> error + feed" where
  "processOrderBookUpdate provider book msg st =
     (if provider = Binance \<and> d_e msg = ''depthUpdate'' then
        (case book of
           None \<Rightarrow> Inl TypeError
         | Some ob \<Rightarrow> Inr (st\<lparr>orderBook := Some (updateBook ob msg)\<rparr>))
      else Inr st)"

text \<open>
  \<^verbatim>\<open>ws.current.onmessage\<close>, after \<^verbatim>\<open>JSON.parse\<close>, for a socket whose handlers
  captured the given provider and book.
\<close>

definition onmessage ::
  "DataProvider \<Rightarrow> OrderBookData option \<Rightarrow> WsData \<Rightarrow> feed \<Rightarrow> error + feed" where
  "onmessage provider book msg st =
     (if d_e msg = ''depthUpdate'' then processOrderBookUpdate provider book msg st
      else if d_e msg = ''trade'' then
        Inr (st\<lparr>trades := processTrade provider msg (trades st)\<rparr>)
      else Inr st)"

text \<open>
  A message event of socket \<open>i\<close>: its handler runs with the provider and the book it
  captured. \<open>capturedBook\<close> is the content of that book when the socket is created,
  which is its content as long as no depth update has been handled.
\<close>

definition wsOnMessage :: "nat \<Rightarrow> WsData \<Rightarrow> feed \<Rightarrow> error + feed" where
  "wsOnMessage i msg st =
     (if i < length (sockets st)
      then onmessage (capturedProvider (sockets st ! i)) (capturedBook (sockets st ! i)) msg st
      else Inr st)"

text \<open>The snapshot returned by the depth endpoint, and the handler that stores it.\<close>

record Snapshot =
  snap_bids :: "level list"
  snap_asks :: "level list"
  snap_lastUpdateId :: int

definition processSnapshot :: "Snapshot \<Rightarrow> OrderBookData" where
  "processSnapshot snapshot =
     \<lparr>bids = map (\<lambda>(p, a). (p, a)) (snap_bids snapshot),
      asks = map (\<lambda>(p, a). (p, a)) (snap_asks snapshot),
      lastUpdateId = snap_lastUpdateId snapshot\<rparr>"

definition snapshotLoaded :: "Snapshot \<Rightarrow> feed \<Rightarrow> feed" where
  "snapshotLoaded snapshot st = st\<lparr>orderBook := Some (processSnapshot snapshot)\<rparr>"

text \<open>\<^verbatim>\<open>onopen\<close> of socket \<open>i\<close>, up to the request for the snapshot.\<close>

definition wsOnOpen :: "nat \<Rightarrow> feed \<Rightarrow> feed" where
  "wsOnOpen i st =
     (if i < length (sockets st)
      then st\<lparr>sockets := (sockets st)[i := (sockets st ! i)\<lparr>readyState := OPEN\<rparr>],
              isConnected := True\<rparr>
      else st)"

subsection \<open>Connection lifecycle\<close>

text \<open>
  \<^verbatim>\<open>connectDemo\<close> stores a first demo book and starts the timer; \<open>demoTick\<close> is the
  timer's callback, which draws the current price first (\<open>tickPrice\<close>), then the
  book's sizes, then the trade. \<open>now\<close> and \<open>now'\<close> are the two clock readings of one
  tick.
\<close>

definition connectDemo :: "string \<Rightarrow> (nat \<Rightarrow> rat) \<Rightarrow> int \<Rightarrow> feed \<Rightarrow> feed" where
  "connectDemo symb rnd now st =
     (let basePrice = demoBasePrice symb; h = nextTimer st in
      st\<lparr>isConnected := True,
         orderBook := Some (generateDemoOrderBook basePrice rnd now),
         demoInterval := Some h,
         intervals := intervals st @ [(h, basePrice)],
         nextTimer := Suc h\<rparr>)"

definition tickPrice :: "rat \<Rightarrow> rat \<Rightarrow> rat" where
  "tickPrice basePrice r =
     binary64 (basePrice +
       binary64 (binary64 (binary64 (r - 1 / 2) * basePrice) * binary64 (1 / 1000)))"

definition demoTick :: "rat \<Rightarrow> (nat \<Rightarrow> rat) \<Rightarrow> int \<Rightarrow> int \<Rightarrow> feed \<Rightarrow> feed" where
  "demoTick basePrice rnd now now' st =
     (let currentPrice = tickPrice basePrice (rnd 0);
          newTrade = generateDemoTrade currentPrice (tradeCounter st) (\<lambda>n. rnd (n + 41)) now'
      in st\<lparr>orderBook := Some (generateDemoOrderBook currentPrice (\<lambda>n. rnd (n + 1)) now),
            tradeCounter := Suc (tradeCounter st),
            trades := pushTrade newTrade (trades st)\<rparr>)"

text \<open>
  \<^verbatim>\<open>connectBinance\<close> creates a socket whose handlers are those of the calling render;
  the book of that render is the stored one.
\<close>

definition connectBinance :: "DataProvider \<Rightarrow> string \<Rightarrow> feed \<Rightarrow> feed" where
  "connectBinance provider symb st =
     st\<lparr>ws := Some (length (sockets st)),
        sockets := sockets st @
          [\<lparr>readyState = CONNECTING, capturedProvider = provider, capturedSymbol = symb,
            capturedBook = orderBook st\<rparr>]\<rparr>"

text \<open>
  The first half of \<^verbatim>\<open>connect\<close>: the current socket is closed when its ready state
  is \<^verbatim>\<open>OPEN\<close>, and the demo timer named by the ref is cleared (the ref keeps the
  handle).
\<close>

definition closeExisting :: "feed \<Rightarrow> feed" where
  "closeExisting st =
     (let st1 = (case ws st of
                   None \<Rightarrow> st
                 | Some i \<Rightarrow>
                     if i < length (sockets st) \<and> readyState (sockets st ! i) = OPEN
                     then st\<lparr>sockets := wsClose i (sockets st)\<rparr> else st)
      in case demoInterval st1 of
           None \<Rightarrow> st1
         | Some h \<Rightarrow> st1\<lparr>intervals := clearInterval h (intervals st1)\<rparr>)"

definition connect ::
  "DataProvider \<Rightarrow> AssetType \<Rightarrow> string \<Rightarrow> (nat \<Rightarrow> rat) \<Rightarrow> int \<Rightarrow> feed \<Rightarrow> feed" where
  "connect provider assetType symb rnd now st =
     (let st1 = closeExisting st in
      case provider of
        Demo \<Rightarrow> connectDemo symb rnd now st1
      | Binance \<Rightarrow>
          if assetType = Crypto then connectBinance provider symb st1
          else connectDemo symb rnd now st1
      | Alpaca \<Rightarrow> connectDemo symb rnd now st1
      | Polygon \<Rightarrow> connectDemo symb rnd now st1)"

definition reconnect ::
  "DataProvider \<Rightarrow> AssetType \<Rightarrow> string \<Rightarrow> (nat \<Rightarrow> rat) \<Rightarrow> int \<Rightarrow> feed \<Rightarrow> feed" where
  "reconnect provider assetType symb rnd now st =
     (let st1 = (case reconnectTimeout st of
                   None \<Rightarrow> st
                 | Some h \<Rightarrow> st\<lparr>timeouts := clearTimeout h (timeouts st)\<rparr>)
      in connect provider assetType symb rnd now st1)"

text \<open>
  The cleanup returned by the effect that calls \<^verbatim>\<open>connect\<close>; React runs it before
  the effect runs again (a selection change gives a new \<^verbatim>\<open>connect\<close>) and on unmount.
\<close>

definition effectCleanup :: "feed \<Rightarrow> feed" where
  "effectCleanup st =
     (let st1 = (case ws st of
                   None \<Rightarrow> st
                 | Some i \<Rightarrow> st\<lparr>sockets := wsClose i (sockets st)\<rparr>);
          st2 = (case reconnectTimeout st1 of
                   None \<Rightarrow> st1
                 | Some h \<Rightarrow> st1\<lparr>timeouts := clearTimeout h (timeouts st1)\<rparr>)
      in case demoInterval st2 of
           None \<Rightarrow> st2
         | Some h \<Rightarrow> st2\<lparr>intervals := clearInterval h (intervals st2)\<rparr>)"

definition selectionChanged ::
  "DataProvider \<Rightarrow> AssetType \<Rightarrow> string \<Rightarrow> (nat \<Rightarrow> rat) \<Rightarrow> int \<Rightarrow> feed \<Rightarrow> feed" where
  "selectionChanged provider assetType symb rnd now st =
     connect provider assetType symb rnd now (effectCleanup st)"

text \<open>The data sources that are alive: sockets connecting or open, and demo timers.\<close>

definition liveSockets :: "feed \<Rightarrow> nat" where
  "liveSockets st =
     length (filter (\<lambda>s. readyState s = CONNECTING \<or> readyState s = OPEN) (sockets st))"

definition liveDemoTimers :: "feed \<Rightarrow> nat" where
  "liveDemoTimers st = length (intervals st)"

subsection \<open>Selection state and the asset-type switch\<close>

record selection =
  assetType :: AssetType
  symbol :: string
  provider :: DataProvider

text \<open>
  \<^verbatim>\<open>handleAssetTypeChange\<close> of the settings screen, and the effect of the provider
  component that depends on \<^verbatim>\<open>assetType\<close>: React runs it after a render in which
  \<^verbatim>\<open>assetType\<close> differs from the previous render's.
\<close>

definition handleAssetTypeChange :: "AssetType \<Rightarrow> selection \<Rightarrow> selection" where
  "handleAssetTypeChange newType sel = sel\<lparr>assetType := newType, provider := Demo\<rparr>"

definition symbolEffect :: "selection \<Rightarrow> selection \<Rightarrow> selection" where
  "symbolEffect prev sel =
     (if assetType sel \<noteq> assetType prev
      then sel\<lparr>symbol := DEFAULT_SYMBOLS (assetType sel)\<rparr> else sel)"

definition switchAssetType :: "AssetType \<Rightarrow> selection \<Rightarrow> selection" where
  "switchAssetType newType sel = symbolEffect sel (handleAssetTypeChange newType sel)"

section \<open>Properties\<close>

declare toString.simps [simp del]

declare genLoop.simps [simp del]

subsection \<open>Rounding to a double\<close>

declare bitLength.simps [simp del]

lemma bitLength_bounds: "0 < n \<Longrightarrow> 2 ^ (bitLength n - 1) \<le> n \<and> n < 2 ^ bitLength n"
proof (induction n rule: bitLength.induct)
  case (1 n)
  show ?case
  proof (cases "n div 2 = 0")
    case True
    with "1.prems" have "n = 1" by (simp add: div_eq_0_iff)
    then show ?thesis by (simp add: bitLength.simps)
  next
    case False
    then have pos: "0 < n div 2" by simp
    with "1.IH" "1.prems" have ih: "2 ^ (bitLength (n div 2) - 1) \<le> n div 2"
      "n div 2 < 2 ^ bitLength (n div 2)" by auto
    have bl: "bitLength n = Suc (bitLength (n div 2))"
      using "1.prems" by (subst bitLength.simps) simp
    have "0 < bitLength (n div 2)" using pos by (subst bitLength.simps) simp
    then have "2 ^ (bitLength n - 1) = 2 * 2 ^ (bitLength (n div 2) - 1)"
      by (simp add: bl flip: power_Suc)
    also have "\<dots> \<le> 2 * (n div 2)" using ih(1) by simp
    also have "\<dots> \<le> n" by simp
    finally have lo: "2 ^ (bitLength n - 1) \<le> n" .
    have "n < 2 * (n div 2) + 2" by presburger
    also have "\<dots> \<le> 2 * 2 ^ bitLength (n div 2)" using ih(2) by simp
    finally have "n < 2 ^ bitLength n" by (simp add: bl)
    with lo show ?thesis by simp
  qed
qed

lemma bitLength_pos: "0 < n \<Longrightarrow> 0 < bitLength n"
  by (subst bitLength.simps) simp

lemma exponent_bounds:
  assumes "0 < a"
  shows "2 powi exponent a \<le> a \<and> a < 2 powi (exponent a + 1)"
proof (cases "1 \<le> a")
  case True
  let ?n = "nat \<lfloor>a\<rfloor>"
  let ?k = "bitLength ?n"
  from True have n: "0 < ?n" by simp
  from bitLength_bounds [OF n] have b: "2 ^ (?k - 1) \<le> ?n" "?n < 2 ^ ?k" by auto
  have k: "0 < ?k" using n by (rule bitLength_pos)
  have e: "exponent a = int (?k - 1)" using True k by (simp add: exponent_def of_nat_diff)
  have "(2::rat) ^ (?k - 1) \<le> of_nat ?n" using b(1) by (metis of_nat_le_iff of_nat_numeral of_nat_power)
  also have "\<dots> \<le> a" using True by (simp add: of_nat_nat)
  finally have lo: "2 powi exponent a \<le> a" by (simp add: e)
  have "\<lfloor>a\<rfloor> + 1 \<le> 2 ^ ?k"
  proof -
    have "int ?n < 2 ^ ?k" using b(2) by (metis of_nat_less_iff of_nat_numeral of_nat_power)
    then show ?thesis using True by simp
  qed
  then have "(of_int (\<lfloor>a\<rfloor> + 1) :: rat) \<le> of_int (2 ^ ?k)" by (simp only: of_int_le_iff)
  moreover have "a < of_int (\<lfloor>a\<rfloor> + 1)" by linarith
  ultimately have "a < of_int (2 ^ ?k)" by (rule less_le_trans [rotated])
  then have "a < 2 ^ ?k" by simp
  moreover have "exponent a + 1 = int ?k" using e k by simp
  ultimately have "a < 2 powi (exponent a + 1)" by simp
  with lo show ?thesis by simp
next
  case False
  let ?y = "1 / a"
  let ?n = "nat (\<lceil>?y\<rceil> - 1)"
  let ?k = "bitLength ?n"
  from False assms have y: "1 < ?y" by simp
  then have c: "2 \<le> \<lceil>?y\<rceil>" by linarith
  then have n: "0 < ?n" by simp
  from bitLength_bounds [OF n] have b: "2 ^ (?k - 1) \<le> ?n" "?n < 2 ^ ?k" by auto
  have k: "0 < ?k" using n by (rule bitLength_pos)
  have e: "exponent a = - int ?k" using False by (simp add: exponent_def)
  have "0 \<le> \<lceil>?y\<rceil> - 1" using c by linarith
  then have nn: "int ?n = \<lceil>?y\<rceil> - 1" by (rule nat_0_le)
  have "int ?n < 2 ^ ?k" using b(2) by (metis of_nat_less_iff of_nat_numeral of_nat_power)
  then have "\<lceil>?y\<rceil> \<le> 2 ^ ?k" unfolding nn by linarith
  then have "(of_int \<lceil>?y\<rceil> :: rat) \<le> of_int (2 ^ ?k)" by (simp only: of_int_le_iff)
  moreover have "?y \<le> of_int \<lceil>?y\<rceil>" by linarith
  ultimately have "?y \<le> of_int (2 ^ ?k)" by (rule order_trans [rotated])
  then have yk: "?y \<le> 2 ^ ?k" by simp
  have "1 / 2 ^ ?k \<le> a"
  proof -
    have "1 \<le> a * 2 ^ ?k" using yk assms by (simp add: field_simps)
    then show ?thesis by (simp add: field_simps)
  qed
  then have lo: "2 powi exponent a \<le> a" by (simp add: e power_int_minus_divide)
  have "(2::int) ^ (?k - 1) \<le> int ?n" using b(1) by (metis of_nat_le_iff of_nat_numeral of_nat_power)
  then have "(2::int) ^ (?k - 1) \<le> \<lceil>?y\<rceil> - 1" unfolding nn .
  then have "(of_int (2 ^ (?k - 1)) :: rat) \<le> of_int (\<lceil>?y\<rceil> - 1)" by (simp only: of_int_le_iff)
  moreover have "of_int (\<lceil>?y\<rceil> - 1) < ?y" by linarith
  ultimately have "of_int (2 ^ (?k - 1)) < ?y" by (rule le_less_trans)
  then have "2 ^ (?k - 1) < ?y" by simp
  then have "a * 2 ^ (?k - 1) < 1" using assms by (simp add: field_simps)
  then have "a < 1 / 2 ^ (?k - 1)" by (simp add: field_simps)
  moreover have "exponent a + 1 = - int (?k - 1)" using e k by (simp add: of_nat_diff)
  ultimately have "a < 2 powi (exponent a + 1)" by (simp add: power_int_minus_divide)
  with lo show ?thesis by simp
qed

lemma exponent_mono:
  assumes "0 < a" "a \<le> b"
  shows "exponent a \<le> exponent b"
proof -
  have "0 < b" using assms by simp
  from exponent_bounds [OF assms(1)] exponent_bounds [OF this] assms(2)
  have "(2::rat) powi exponent a < 2 powi (exponent b + 1)" by linarith
  moreover have "(2::rat) powi (exponent b + 1) \<le> 2 powi exponent a"
    if "exponent b + 1 \<le> exponent a"
    using that by (intro power_int_increasing) simp_all
  ultimately show ?thesis by fastforce
qed

lemma roundEven_near:
  "of_int (roundEven q) \<le> q + 1 / 2 \<and> q - 1 / 2 \<le> of_int (roundEven q)"
proof -
  show ?thesis by (auto simp: roundEven_def Let_def; linarith)
qed

lemma roundEven_of_int: "roundEven (of_int n) = n"
  by (simp add: roundEven_def)

lemma roundEven_mono:
  assumes "q \<le> r"
  shows "roundEven q \<le> roundEven r"
proof (cases "\<lfloor>q\<rfloor> = \<lfloor>r\<rfloor>")
  case True
  with assms show ?thesis by (auto simp: roundEven_def Let_def)
next
  case False
  with assms have "\<lfloor>q\<rfloor> + 1 \<le> \<lfloor>r\<rfloor>" using floor_mono [OF assms] by simp
  moreover have "roundEven q \<le> \<lfloor>q\<rfloor> + 1" by (simp add: roundEven_def Let_def)
  moreover have "\<lfloor>r\<rfloor> \<le> roundEven r" by (simp add: roundEven_def Let_def)
  ultimately show ?thesis by linarith
qed

lemma ulp_pos: "0 < ulp a"
  by (simp add: ulp_def)

lemma binary64_pos: "0 < x \<Longrightarrow> binary64 x = of_int (roundEven (x / ulp x)) * ulp x"
  by (simp add: binary64_def)

lemma binary64_minus: "binary64 (- x) = - binary64 x"
  by (simp add: binary64_def sgn_minus)

lemma binary64_0: "binary64 0 = 0"
  by (simp add: binary64_def)

lemma binary64_nonneg: "0 \<le> x \<Longrightarrow> 0 \<le> binary64 x"
proof (cases "x = 0")
  case True
  then show ?thesis by (simp add: binary64_0)
next
  case False
  assume "0 \<le> x"
  with False have x: "0 < x" by simp
  have "0 \<le> x / ulp x" using x ulp_pos [of x] by simp
  then have "roundEven 0 \<le> roundEven (x / ulp x)" by (rule roundEven_mono)
  then have "0 \<le> roundEven (x / ulp x)" by (simp add: roundEven_def)
  then show ?thesis using x ulp_pos [of x] by (simp add: binary64_pos)
qed

lemma binary64_upper:
  assumes "0 < a"
  shows "binary64 a \<le> 2 powi (max (exponent a) (- 1022) + 1)"
proof -
  let ?e = "max (exponent a) (- 1022)"
  have u: "ulp a = 2 powi (?e - 52)" by (simp add: ulp_def)
  have "a < 2 powi (exponent a + 1)" using exponent_bounds [OF assms] by simp
  also have "\<dots> \<le> 2 powi (?e + 1)" by (intro power_int_increasing) simp_all
  finally have "a < 2 powi (?e + 1)" .
  then have "a / ulp a \<le> 2 powi (?e + 1) / ulp a"
    using ulp_pos [of a] by (simp add: divide_right_mono)
  also have "2 powi (?e + 1) / ulp a = (2::rat) powi ((?e + 1) - (?e - 52))"
    unfolding u by (subst power_int_diff) simp_all
  also have "\<dots> = of_int (2 ^ 53)" by simp
  finally have "roundEven (a / ulp a) \<le> roundEven (of_int (2 ^ 53))" by (rule roundEven_mono)
  then have "roundEven (a / ulp a) \<le> 2 ^ 53" by (simp only: roundEven_of_int)
  then have "(of_int (roundEven (a / ulp a)) :: rat) \<le> of_int (2 ^ 53)" by (simp only: of_int_le_iff)
  then have "binary64 a \<le> of_int (2 ^ 53) * ulp a"
    using assms ulp_pos [of a] by (simp only: binary64_pos mult_right_mono less_imp_le)
  also have "of_int (2 ^ 53) * ulp a = 2 powi 53 * 2 powi (?e - 52)" unfolding u by simp
  also have "\<dots> = (2::rat) powi (53 + (?e - 52))" by (subst power_int_add) simp_all
  also have "53 + (?e - 52) = ?e + 1" by simp
  finally show ?thesis .
qed

lemma binary64_lower:
  assumes "0 < b" "- 1022 \<le> exponent b"
  shows "2 powi exponent b \<le> binary64 b"
proof -
  let ?e = "exponent b"
  have u: "ulp b = 2 powi (?e - 52)" using assms(2) by (simp add: ulp_def max_def)
  have "2 powi ?e \<le> b" using exponent_bounds [OF assms(1)] by simp
  then have "2 powi ?e / ulp b \<le> b / ulp b"
    using ulp_pos [of b] by (simp add: divide_right_mono)
  moreover have "2 powi ?e / ulp b = (2::rat) powi (?e - (?e - 52))"
    unfolding u by (subst power_int_diff) simp_all
  moreover have "(2::rat) powi (?e - (?e - 52)) = of_int (2 ^ 52)" by simp
  ultimately have "of_int (2 ^ 52) \<le> b / ulp b" by simp
  then have "roundEven (of_int (2 ^ 52)) \<le> roundEven (b / ulp b)" by (rule roundEven_mono)
  then have "2 ^ 52 \<le> roundEven (b / ulp b)" by (simp only: roundEven_of_int)
  then have "(of_int (2 ^ 52) :: rat) \<le> of_int (roundEven (b / ulp b))" by (simp only: of_int_le_iff)
  then have "of_int (2 ^ 52) * ulp b \<le> binary64 b"
    using assms(1) ulp_pos [of b] by (simp only: binary64_pos mult_right_mono less_imp_le)
  moreover have "of_int (2 ^ 52) * ulp b = 2 powi 52 * 2 powi (?e - 52)" unfolding u by simp
  moreover have "2 powi 52 * 2 powi (?e - 52) = (2::rat) powi (52 + (?e - 52))"
    by (subst power_int_add) simp_all
  ultimately show ?thesis by simp
qed

lemma binary64_mono_pos:
  assumes "0 < a" "a \<le> b"
  shows "binary64 a \<le> binary64 b"
proof -
  have b: "0 < b" using assms by simp
  let ?ea = "max (exponent a) (- 1022)"
  let ?eb = "max (exponent b) (- 1022)"
  have le: "?ea \<le> ?eb" using exponent_mono [OF assms] by simp
  show ?thesis
  proof (cases "?ea = ?eb")
    case True
    then have u: "ulp a = ulp b" by (simp add: ulp_def)
    have "a / ulp b \<le> b / ulp b" using assms(2) ulp_pos [of b] by (simp add: divide_right_mono)
    then have "roundEven (a / ulp b) \<le> roundEven (b / ulp b)" by (rule roundEven_mono)
    then have "(of_int (roundEven (a / ulp b)) :: rat) \<le> of_int (roundEven (b / ulp b))"
      by (simp only: of_int_le_iff)
    then show ?thesis
      using assms(1) b ulp_pos [of b] by (simp only: binary64_pos u mult_right_mono less_imp_le)
  next
    case False
    with le have lt: "?ea < ?eb" by linarith
    then have eb: "?eb = exponent b" "- 1022 \<le> exponent b" by linarith+
    have "binary64 a \<le> 2 powi (?ea + 1)" by (rule binary64_upper [OF assms(1)])
    also have "\<dots> \<le> 2 powi exponent b"
    proof (rule power_int_increasing)
      show "?ea + 1 \<le> exponent b" using lt eb(1) by linarith
    qed simp
    also have "\<dots> \<le> binary64 b" by (rule binary64_lower [OF b eb(2)])
    finally show ?thesis .
  qed
qed

lemma binary64_mono:
  assumes "x \<le> y"
  shows "binary64 x \<le> binary64 y"
proof -
  consider "0 < x" | "x \<le> 0" "0 \<le> y" | "y < 0" by linarith
  then show ?thesis
  proof cases
    case 1
    then show ?thesis using assms by (rule binary64_mono_pos)
  next
    case 2
    then have "binary64 x \<le> 0" using binary64_nonneg [of "- x"] by (simp add: binary64_minus)
    moreover have "0 \<le> binary64 y" using 2 by (simp add: binary64_nonneg)
    ultimately show ?thesis by simp
  next
    case 3
    then have "0 < - y" "- y \<le> - x" using assms by simp_all
    then have "binary64 (- y) \<le> binary64 (- x)" by (rule binary64_mono_pos)
    then show ?thesis by (simp add: binary64_minus)
  qed
qed

lemma binary64_error_pos:
  assumes "2 powi (- 1022) \<le> a"
  shows "\<bar>binary64 a - a\<bar> \<le> a / 2 ^ 53"
proof -
  have a: "0 < a" using assms by (rule less_le_trans [rotated]) simp
  have e: "- 1022 \<le> exponent a"
  proof (rule ccontr)
    assume "\<not> - 1022 \<le> exponent a"
    then have "exponent a + 1 \<le> - 1022" by simp
    then have "(2::rat) powi (exponent a + 1) \<le> 2 powi (- 1022)"
      by (intro power_int_increasing) simp_all
    with exponent_bounds [OF a] assms show False by linarith
  qed
  have u: "ulp a = 2 powi (exponent a - 52)" using e by (simp add: ulp_def max_def)
  let ?m = "of_int (roundEven (a / ulp a)) :: rat"
  from roundEven_near [of "a / ulp a"] have "\<bar>?m - a / ulp a\<bar> \<le> 1 / 2" by linarith
  then have "\<bar>?m - a / ulp a\<bar> * ulp a \<le> 1 / 2 * ulp a"
    using ulp_pos [of a] by (intro mult_right_mono) simp_all
  moreover have "\<bar>?m - a / ulp a\<bar> * ulp a = \<bar>?m * ulp a - a\<bar>"
  proof -
    have "\<bar>?m - a / ulp a\<bar> * ulp a = \<bar>(?m - a / ulp a) * ulp a\<bar>"
      using ulp_pos [of a] by (simp add: abs_mult)
    also have "(?m - a / ulp a) * ulp a = ?m * ulp a - a"
      using ulp_pos [of a] by (simp add: field_simps)
    finally show ?thesis .
  qed
  ultimately have "\<bar>binary64 a - a\<bar> \<le> ulp a / 2" using a by (simp add: binary64_pos)
  also have "ulp a / 2 = 2 powi exponent a / 2 ^ 53"
  proof -
    have "(2::rat) powi (exponent a - 52) = 2 powi exponent a / 2 powi 52"
      by (subst power_int_diff) simp_all
    then show ?thesis unfolding u by simp
  qed
  also have "\<dots> \<le> a / 2 ^ 53"
    using exponent_bounds [OF a] by (simp add: divide_right_mono)
  finally show ?thesis .
qed

subsection \<open>Sorting and searching\<close>

lemma set_insertBy: "set (insertBy cmp x xs) = insert x (set xs)"
  by (induction xs) auto

lemma set_sortBy: "set (sortBy cmp xs) = set xs"
  by (induction xs) (simp_all add: sortBy_def set_insertBy)

lemma length_insertBy: "length (insertBy cmp x xs) = Suc (length xs)"
  by (induction xs) auto

lemma length_sortBy: "length (sortBy cmp xs) = length xs"
  by (induction xs) (simp_all add: sortBy_def length_insertBy)










lemma findIndex_ge: "- 1 \<le> findIndex P xs"
  by (induction xs) (auto simp: Let_def)

lemma findIndex_found:
  "0 \<le> findIndex P xs \<Longrightarrow> nat (findIndex P xs) < length xs \<and> P (xs ! nat (findIndex P xs))"
proof (induction xs)
  case Nil
  then show ?case by simp
next
  case (Cons x xs)
  show ?case
  proof (cases "P x")
    case True
    then show ?thesis by simp
  next
    case False
    with Cons.prems have r: "0 \<le> findIndex P xs"
      by (auto simp: Let_def split: if_splits)
    with Cons.IH have "nat (findIndex P xs) < length xs" "P (xs ! nat (findIndex P xs))"
      by auto
    with False r show ?thesis
      by (simp add: Let_def nat_add_distrib)
  qed
qed

lemma findIndex_none: "findIndex P xs < 0 \<Longrightarrow> x \<in> set xs \<Longrightarrow> \<not> P x"
  using findIndex_ge [of P] by (induction xs) (auto simp: Let_def split: if_splits)

lemma findIndex_some: "x \<in> set xs \<Longrightarrow> P x \<Longrightarrow> 0 \<le> findIndex P xs"
  using findIndex_none [of P xs x] by fastforce

subsection \<open>Applying the bid entries of a depth update\<close>



lemma applyBid_zero: "snd e = 0 \<Longrightarrow> fst e \<notin> fst ` set (applyBid bs e)"
  by (auto simp: applyBid_def)

lemma applyBid_nonzero: "snd e \<noteq> 0 \<Longrightarrow> e \<in> set (applyBid bs e)"
proof -
  assume nz: "snd e \<noteq> 0"
  let ?i = "findIndex (\<lambda>l. fst l = fst e) bs"
  show ?thesis
  proof (cases "0 \<le> ?i")
    case True
    from findIndex_found [OF True] have "nat ?i < length bs" by simp
    with nz True show ?thesis
      by (simp add: applyBid_def Let_def set_update_memI)
  next
    case False
    with nz show ?thesis by (simp add: applyBid_def Let_def)
  qed
qed

lemma applyBid_other:
  assumes "fst l \<noteq> fst e"
  shows "l \<in> set (applyBid bs e) \<longleftrightarrow> l \<in> set bs"
proof (cases "snd e = 0")
  case True
  with assms show ?thesis by (auto simp: applyBid_def)
next
  case nz: False
  let ?i = "findIndex (\<lambda>l. fst l = fst e) bs"
  show ?thesis
  proof (cases "0 \<le> ?i")
    case True
    from findIndex_found [OF True]
    have i: "nat ?i < length bs" and at: "fst (bs ! nat ?i) = fst e" by auto
    have "l \<in> set (bs[nat ?i := e]) \<longleftrightarrow> l \<in> set bs"
    proof
      assume "l \<in> set (bs[nat ?i := e])"
      then have "l \<in> insert e (set bs)" using set_update_subset_insert by fastforce
      with assms show "l \<in> set bs" by auto
    next
      assume "l \<in> set bs"
      then obtain k where k: "k < length bs" "bs ! k = l" by (auto simp: in_set_conv_nth)
      with at assms have "k \<noteq> nat ?i" by auto
      with k show "l \<in> set (bs[nat ?i := e])"
        by (metis length_list_update nth_list_update_neq nth_mem)
    qed
    with nz True show ?thesis by (simp add: applyBid_def Let_def)
  next
    case False
    with nz assms show ?thesis by (auto simp: applyBid_def Let_def)
  qed
qed

lemma foldl_applyBid_other:
  "fst l \<notin> fst ` set es \<Longrightarrow> l \<in> set (foldl applyBid bs es) \<longleftrightarrow> l \<in> set bs"
  by (induction es arbitrary: bs) (simp_all add: applyBid_other)

lemma foldl_applyBid_absent:
  "p \<notin> fst ` set es \<Longrightarrow> p \<notin> fst ` set bs \<Longrightarrow> p \<notin> fst ` set (foldl applyBid bs es)"
  using foldl_applyBid_other by (metis (no_types, lifting) image_iff)

lemma foldl_applyBid_last:
  assumes "p \<notin> fst ` set ys"
  shows "(a = 0 \<longrightarrow> p \<notin> fst ` set (foldl applyBid bs (xs @ (p, a) # ys))) \<and>
         (a \<noteq> 0 \<longrightarrow> (p, a) \<in> set (foldl applyBid bs (xs @ (p, a) # ys)))"
proof -
  let ?mid = "applyBid (foldl applyBid bs xs) (p, a)"
  have eq: "foldl applyBid bs (xs @ (p, a) # ys) = foldl applyBid ?mid ys" by simp
  have "a = 0 \<Longrightarrow> p \<notin> fst ` set ?mid" using applyBid_zero [of "(p, a)"] by simp
  moreover have "a \<noteq> 0 \<Longrightarrow> (p, a) \<in> set ?mid" using applyBid_nonzero [of "(p, a)"] by simp
  ultimately show ?thesis
    using assms foldl_applyBid_absent [of p ys ?mid] foldl_applyBid_other [of "(p, a)" ys ?mid]
    unfolding eq by auto
qed

subsection \<open>Rounding to two decimals\<close>

lemma floor_rat_numeral: "\<lfloor>numeral a / numeral b :: rat\<rfloor> = numeral a div numeral b"
  by (metis floor_divide_of_int_eq of_int_numeral)

lemma cents_mono:
  "x \<le> y \<Longrightarrow> (of_int \<lfloor>x * 100 + 1 / 2\<rfloor> :: rat) / 100 \<le> of_int \<lfloor>y * 100 + 1 / 2\<rfloor> / 100"
proof -
  assume "x \<le> y"
  then have "\<lfloor>x * 100 + 1 / 2\<rfloor> \<le> \<lfloor>y * 100 + 1 / 2\<rfloor>" by (intro floor_mono) simp
  then have "(of_int \<lfloor>x * 100 + 1 / 2\<rfloor> :: rat) \<le> of_int \<lfloor>y * 100 + 1 / 2\<rfloor>"
    by (simp only: of_int_le_iff)
  then show ?thesis by (simp add: divide_right_mono)
qed

lemma cents_nonneg: "0 \<le> x \<Longrightarrow> (0::rat) \<le> of_int \<lfloor>x * 100 + 1 / 2\<rfloor> / 100"
proof -
  assume "0 \<le> x"
  then have "(0::int) \<le> \<lfloor>x * 100 + 1 / 2\<rfloor>" by simp
  then show ?thesis by simp
qed

lemma cents_below_limit:
  assumes "(x::rat) < 10 ^ 21"
  shows "(of_int \<lfloor>x * 100 + 1 / 2\<rfloor> :: rat) / 100 \<le> 10 ^ 21"
proof -
  have "x * 100 + 1 / 2 < of_int (10 ^ 23 + 1)" using assms by simp
  then have "\<lfloor>x * 100 + 1 / 2\<rfloor> < 10 ^ 23 + 1" by (simp only: floor_less_iff)
  then have "\<lfloor>x * 100 + 1 / 2\<rfloor> \<le> 10 ^ 23" by simp
  then have "(of_int \<lfloor>x * 100 + 1 / 2\<rfloor> :: rat) \<le> of_int (10 ^ 23)" by (simp only: of_int_le_iff)
  then show ?thesis by simp
qed

lemma toFixed2_small: "0 \<le> x \<Longrightarrow> x < 10 ^ 21 \<Longrightarrow> toFixed2 x = of_int \<lfloor>x * 100 + 1 / 2\<rfloor> / 100"
  by (simp add: toFixed2_def)

lemma toFixed2_neg:
  "x < 0 \<Longrightarrow> - (10 ^ 21) < x \<Longrightarrow> toFixed2 x = - (of_int \<lfloor>(- x) * 100 + 1 / 2\<rfloor> / 100)"
  by (simp add: toFixed2_def)

lemma toFixed2_big: "10 ^ 21 \<le> \<bar>x\<bar> \<Longrightarrow> toFixed2 x = x"
  by (simp add: toFixed2_def)

lemma toFixed2_upper:
  assumes x: "x < 10 ^ 21"
  shows "toFixed2 x \<le> 10 ^ 21"
proof -
  consider "10 ^ 21 \<le> \<bar>x\<bar>" | "\<bar>x\<bar> < 10 ^ 21" "x < 0" | "\<bar>x\<bar> < 10 ^ 21" "0 \<le> x"
    by linarith
  then show ?thesis
  proof cases
    case 1
    then have "toFixed2 x = x" by (rule toFixed2_big)
    then show ?thesis using x by linarith
  next
    case 2
    then have "toFixed2 x = - (of_int \<lfloor>(- x) * 100 + 1 / 2\<rfloor> / 100)"
      by (intro toFixed2_neg) linarith+
    moreover have "(0::rat) \<le> of_int \<lfloor>(- x) * 100 + 1 / 2\<rfloor> / 100"
      using 2 by (intro cents_nonneg) simp
    moreover have "(0::rat) \<le> 10 ^ 21" by simp
    ultimately show ?thesis by linarith
  next
    case 3
    then have eq: "toFixed2 x = of_int \<lfloor>x * 100 + 1 / 2\<rfloor> / 100"
      using x by (intro toFixed2_small)
    show ?thesis unfolding eq by (rule cents_below_limit [OF x])
  qed
qed

lemma toFixed2_minus: "toFixed2 (- x) = - toFixed2 x"
proof -
  have "\<lfloor>(1::rat) / 2\<rfloor> = 0" by (simp add: floor_eq_iff)
  then show ?thesis by (simp add: toFixed2_def)
qed

lemma toFixed2_mono:
  assumes "x \<le> y"
  shows "toFixed2 x \<le> toFixed2 y"
proof -
  consider "10 ^ 21 \<le> \<bar>x\<bar>" "10 ^ 21 \<le> \<bar>y\<bar>"
    | "10 ^ 21 \<le> \<bar>x\<bar>" "\<bar>y\<bar> < 10 ^ 21"
    | "\<bar>x\<bar> < 10 ^ 21" "10 ^ 21 \<le> \<bar>y\<bar>"
    | "\<bar>x\<bar> < 10 ^ 21" "\<bar>y\<bar> < 10 ^ 21" by linarith
  then show ?thesis
  proof cases
    case 1
    then show ?thesis using assms by (simp add: toFixed2_big)
  next
    case 2
    then have x: "x \<le> - (10 ^ 21)" using assms by linarith
    have "- y < 10 ^ 21" using 2 by linarith
    then have "toFixed2 (- y) \<le> 10 ^ 21" by (rule toFixed2_upper)
    then have "- (10 ^ 21) \<le> toFixed2 y" by (simp add: toFixed2_minus)
    moreover have "toFixed2 x = x" using 2 by (simp add: toFixed2_big)
    ultimately show ?thesis using x by linarith
  next
    case 3
    then have y: "10 ^ 21 \<le> y" using assms by linarith
    have "x < 10 ^ 21" using 3 by linarith
    then have "toFixed2 x \<le> 10 ^ 21" by (rule toFixed2_upper)
    moreover have "toFixed2 y = y" using 3 by (simp add: toFixed2_big)
    ultimately show ?thesis using y by linarith
  next
    case 4
    consider "0 \<le> x" | "x < 0" "0 \<le> y" | "y < 0" by linarith
    then show ?thesis
    proof cases
      case 1
      then have "0 \<le> y" using assms by simp
      have "toFixed2 x = of_int \<lfloor>x * 100 + 1 / 2\<rfloor> / 100"
        using 1 4 by (intro toFixed2_small) linarith+
      moreover have "toFixed2 y = of_int \<lfloor>y * 100 + 1 / 2\<rfloor> / 100"
        using \<open>0 \<le> y\<close> 4 by (intro toFixed2_small) linarith+
      ultimately show ?thesis using cents_mono [OF assms] by (simp only:)
    next
      case 2
      have "toFixed2 x = - (of_int \<lfloor>(- x) * 100 + 1 / 2\<rfloor> / 100)"
        using 2 4 by (intro toFixed2_neg) linarith+
      moreover have "toFixed2 y = of_int \<lfloor>y * 100 + 1 / 2\<rfloor> / 100"
        using 2 4 by (intro toFixed2_small) linarith+
      moreover have "(0::rat) \<le> of_int \<lfloor>(- x) * 100 + 1 / 2\<rfloor> / 100"
        using 2 by (intro cents_nonneg) simp
      moreover have "(0::rat) \<le> of_int \<lfloor>y * 100 + 1 / 2\<rfloor> / 100"
        using 2 by (intro cents_nonneg) simp
      ultimately show ?thesis by linarith
    next
      case 3
      then have "x < 0" using assms by simp
      have "toFixed2 x = - (of_int \<lfloor>(- x) * 100 + 1 / 2\<rfloor> / 100)"
        using \<open>x < 0\<close> 4 by (intro toFixed2_neg) linarith+
      moreover have "toFixed2 y = - (of_int \<lfloor>(- y) * 100 + 1 / 2\<rfloor> / 100)"
        using 3 4 by (intro toFixed2_neg) linarith+
      moreover have "(of_int \<lfloor>(- y) * 100 + 1 / 2\<rfloor> :: rat) / 100
          \<le> of_int \<lfloor>(- x) * 100 + 1 / 2\<rfloor> / 100"
        using assms by (intro cents_mono) simp
      ultimately show ?thesis by linarith
    qed
  qed
qed

lemma toFixed2_gap:
  assumes x: "0 \<le> x" and xy: "x + 1 / 100 \<le> y" and y: "y < 10 ^ 21"
  shows "toFixed2 x + 1 / 100 \<le> toFixed2 y"
proof -
  have "\<lfloor>x * 100 + 1 / 2\<rfloor> + 1 = \<lfloor>(x * 100 + 1 / 2) + 1\<rfloor>"
    by (simp only: floor_add_int of_int_1)
  also have "\<dots> \<le> \<lfloor>y * 100 + 1 / 2\<rfloor>"
    using xy by (intro floor_mono) simp
  finally have "(of_int (\<lfloor>x * 100 + 1 / 2\<rfloor> + 1) :: rat) \<le> of_int \<lfloor>y * 100 + 1 / 2\<rfloor>"
    by (simp only: of_int_le_iff)
  then have "(of_int \<lfloor>x * 100 + 1 / 2\<rfloor> + 1) / 100 \<le> (of_int \<lfloor>y * 100 + 1 / 2\<rfloor> :: rat) / 100"
    by (simp add: divide_right_mono)
  moreover have "0 \<le> y" "x < 10 ^ 21" using x xy y by simp_all
  ultimately show ?thesis
    using x y by (simp add: toFixed2_small add_divide_distrib)
qed

lemma toFixed2_near:
  assumes "0 \<le> x" "x < 10 ^ 21"
  shows "x - 1 / 200 \<le> toFixed2 x \<and> toFixed2 x \<le> x + 1 / 200"
proof -
  have "of_int \<lfloor>x * 100 + 1 / 2\<rfloor> \<le> x * 100 + 1 / 2"
       "x * 100 + 1 / 2 < of_int \<lfloor>x * 100 + 1 / 2\<rfloor> + 1" by linarith+
  then show ?thesis using assms by (simp add: toFixed2_small field_simps)
qed

lemma parseFixed2_mono: "x \<le> y \<Longrightarrow> parseFixed2 x \<le> parseFixed2 y"
  by (simp add: parseFixed2_def binary64_mono toFixed2_mono)

subsection \<open>Levels of the demo book\<close>

lemma genLoop_eq:
  "i \<le> 20 \<Longrightarrow>
   genLoop basePrice spread rnd i bidAcc askAcc =
     (bidAcc @ map (\<lambda>k. (bidPrice basePrice spread k, demoSize (rnd (2 * k)))) [i..<20],
      askAcc @ map (\<lambda>k. (askPrice basePrice spread k, demoSize (rnd (2 * k + 1)))) [i..<20])"
proof (induction basePrice spread rnd i bidAcc askAcc rule: genLoop.induct)
  case (1 basePrice spread rnd i bidAcc askAcc)
  show ?case
  proof (cases "i < 20")
    case True
    then have "[i..<20] = i # [Suc i..<20]" by (simp add: upt_conv_Cons)
    with True "1.IH" show ?thesis
      by (subst genLoop.simps) simp
  next
    case False
    with "1.prems" have "i = 20" by simp
    then show ?thesis by (subst genLoop.simps) simp
  qed
qed

lemma demo_bids:
  "bids (generateDemoOrderBook basePrice rnd now) =
     map (\<lambda>k. (bidPrice basePrice (binary64 (basePrice * binary64 (1 / 10000))) k,
                demoSize (rnd (2 * k)))) [0..<20]"
  by (simp add: generateDemoOrderBook_def Let_def genLoop_eq)

lemma demo_asks:
  "asks (generateDemoOrderBook basePrice rnd now) =
     map (\<lambda>k. (askPrice basePrice (binary64 (basePrice * binary64 (1 / 10000))) k,
                demoSize (rnd (2 * k + 1)))) [0..<20]"
  by (simp add: generateDemoOrderBook_def Let_def genLoop_eq)

lemma spread_nonneg: "0 \<le> basePrice \<Longrightarrow> 0 \<le> binary64 (basePrice * binary64 (1 / 10000))"
  by (intro binary64_nonneg mult_nonneg_nonneg) simp_all

lemma bidPrice_antimono:
  assumes "0 \<le> spread" "i \<le> j"
  shows "bidPrice basePrice spread j \<le> bidPrice basePrice spread i"
proof -
  have "(of_nat i :: rat) * spread \<le> of_nat j * spread"
    using assms by (intro mult_right_mono) simp_all
  then have "binary64 (of_nat i * spread) \<le> binary64 (of_nat j * spread)" by (rule binary64_mono)
  then have "binary64 (basePrice - spread) - binary64 (of_nat j * spread)
      \<le> binary64 (basePrice - spread) - binary64 (of_nat i * spread)" by simp
  then show ?thesis unfolding bidPrice_def by (intro parseFixed2_mono binary64_mono)
qed

lemma askPrice_mono:
  assumes "0 \<le> spread" "i \<le> j"
  shows "askPrice basePrice spread i \<le> askPrice basePrice spread j"
proof -
  have "(of_nat i :: rat) * spread \<le> of_nat j * spread"
    using assms by (intro mult_right_mono) simp_all
  then have "binary64 (of_nat i * spread) \<le> binary64 (of_nat j * spread)" by (rule binary64_mono)
  then have "binary64 (basePrice + spread) + binary64 (of_nat i * spread)
      \<le> binary64 (basePrice + spread) + binary64 (of_nat j * spread)" by simp
  then show ?thesis unfolding askPrice_def by (intro parseFixed2_mono binary64_mono)
qed

lemma bid_le_ask:
  assumes "0 \<le> spread"
  shows "bidPrice basePrice spread i \<le> askPrice basePrice spread j"
proof -
  have "bidPrice basePrice spread i \<le> bidPrice basePrice spread 0"
    using assms by (intro bidPrice_antimono) simp_all
  also have "\<dots> \<le> askPrice basePrice spread 0"
  proof -
    have "binary64 (basePrice - spread) \<le> binary64 (basePrice + spread)"
      using assms by (intro binary64_mono) simp
    then show ?thesis unfolding bidPrice_def askPrice_def
      by (intro parseFixed2_mono binary64_mono) (simp add: binary64_0)
  qed
  also have "\<dots> \<le> askPrice basePrice spread j"
    using assms by (intro askPrice_mono) simp_all
  finally show ?thesis .
qed



subsection \<open>Distance of neighbouring demo levels\<close>

lemma binary64_rel:
  assumes "x = 0 \<or> 1 / 1000000 \<le> x"
  shows "x - x / 9007199254740992 \<le> binary64 x \<and> binary64 x \<le> x + x / 9007199254740992"
proof (cases "x = 0")
  case True
  then show ?thesis by (simp add: binary64_0)
next
  case False
  with assms have x: "1 / 1000000 \<le> x" by simp
  have "(2::rat) powi (- 1022) \<le> 2 powi (- 20)"
    by (intro power_int_increasing) simp_all
  also have "\<dots> \<le> 1 / 1000000" by (simp add: power_int_minus_divide)
  finally have "2 powi (- 1022) \<le> x" using x by linarith
  then have "\<bar>binary64 x - x\<bar> \<le> x / 2 ^ 53" by (rule binary64_error_pos)
  then have "\<bar>binary64 x - x\<bar> \<le> x / 9007199254740992" by simp
  then show ?thesis by linarith
qed




lemma spread_raw_gap:
  fixes bp :: rat
  assumes bp: "51 \<le> bp"
  defines "s \<equiv> binary64 (bp * binary64 (1 / 10000))"
  shows "binary64 (binary64 (bp - s) - binary64 (of_nat 0 * s)) + 1 / 100
          \<le> binary64 (binary64 (bp + s) + binary64 (of_nat 0 * s))"
    and "0 \<le> binary64 (binary64 (bp - s) - binary64 (of_nat 0 * s))"
    and "binary64 (binary64 (bp - s) - binary64 (of_nat 0 * s))
          + binary64 (binary64 (bp + s) + binary64 (of_nat 0 * s)) / 30000
          \<le> binary64 (binary64 (bp + s) + binary64 (of_nat 0 * s))"
proof -
  define c where "c = binary64 (1 / 10000)"
  define p where "p = bp * c"
  define d where "d = bp - s"
  define d' where "d' = bp + s"
  define A where "A = binary64 d"
  define A' where "A' = binary64 d'"
  have c: "9999 / 100000000 \<le> c" "c \<le> 10001 / 100000000"
    using binary64_rel [of "1 / 10000"] by (simp_all add: c_def)
  have p: "bp * (9999 / 100000000) \<le> p" "p \<le> bp * (10001 / 100000000)"
    unfolding p_def using c bp by (intro mult_left_mono; simp)+
  have p6: "1 / 1000000 \<le> p" using p(1) bp by linarith
  have s: "p - p / 9007199254740992 \<le> s" "s \<le> p + p / 9007199254740992"
    using binary64_rel [of p] p6 by (simp_all add: s_def p_def c_def)
  have s6: "1 / 1000000 \<le> s" "0 \<le> s" using s(1) p(1) bp by linarith+
  have d6: "1 \<le> d" using s(2) p(2) bp d_def by linarith
  have d6': "1 \<le> d'" using s6 bp d'_def by linarith
  have A: "d - d / 9007199254740992 \<le> A" "A \<le> d + d / 9007199254740992"
    using binary64_rel [of d] d6 by (simp_all add: A_def)
  have A': "d' - d' / 9007199254740992 \<le> A'" "A' \<le> d' + d' / 9007199254740992"
    using binary64_rel [of d'] d6' by (simp_all add: A'_def)
  have a6: "1 / 1000000 \<le> A" using A(1) d6 by linarith
  have a6': "1 / 1000000 \<le> A'" using A'(1) d6' by linarith
  have R: "A - A / 9007199254740992 \<le> binary64 A"
          "binary64 A \<le> A + A / 9007199254740992"
    using binary64_rel [of A] a6 by simp_all
  have R': "A' - A' / 9007199254740992 \<le> binary64 A'"
           "binary64 A' \<le> A' + A' / 9007199254740992"
    using binary64_rel [of A'] a6' by simp_all
  have "binary64 A + 1 / 100 \<le> binary64 A'"
    using R(2) R'(1) A A' s p bp d_def d'_def by linarith
  then show "binary64 (binary64 (bp - s) - binary64 (of_nat 0 * s)) + 1 / 100
          \<le> binary64 (binary64 (bp + s) + binary64 (of_nat 0 * s))"
    by (simp add: A_def A'_def d_def d'_def binary64_0)
  have "0 \<le> binary64 A" using a6 by (intro binary64_nonneg) simp
  then show "0 \<le> binary64 (binary64 (bp - s) - binary64 (of_nat 0 * s))"
    by (simp add: A_def d_def binary64_0)
  define b where "b = binary64 A"
  define b' where "b' = binary64 A'"
  have "b + b' / 30000 \<le> b'"
    using R R' A A' s p bp d_def d'_def b_def b'_def by linarith
  then show "binary64 (binary64 (bp - s) - binary64 (of_nat 0 * s))
          + binary64 (binary64 (bp + s) + binary64 (of_nat 0 * s)) / 30000
          \<le> binary64 (binary64 (bp + s) + binary64 (of_nat 0 * s))"
    by (simp add: A_def A'_def d_def d'_def binary64_0 b_def b'_def)
qed

lemma toFixed2_cents:
  assumes "0 \<le> x"
  shows "toFixed2 x = 0 \<or> 1 / 100 \<le> toFixed2 x"
proof (cases "x < 10 ^ 21")
  case True
  have "0 \<le> \<lfloor>x * 100 + 1 / 2\<rfloor>" using assms by simp
  then have "\<lfloor>x * 100 + 1 / 2\<rfloor> = 0 \<or> 1 \<le> \<lfloor>x * 100 + 1 / 2\<rfloor>" by linarith
  then show ?thesis
  proof
    assume "\<lfloor>x * 100 + 1 / 2\<rfloor> = 0"
    then show ?thesis using assms True by (simp add: toFixed2_small)
  next
    assume "1 \<le> \<lfloor>x * 100 + 1 / 2\<rfloor>"
    then have "(1::rat) \<le> of_int \<lfloor>x * 100 + 1 / 2\<rfloor>" by linarith
    then have "(1::rat) / 100 \<le> of_int \<lfloor>x * 100 + 1 / 2\<rfloor> / 100"
      by (intro divide_right_mono) simp_all
    then show ?thesis using assms True by (simp add: toFixed2_small)
  qed
next
  case False
  then have "toFixed2 x = x" using assms by (intro toFixed2_big) simp
  then show ?thesis using False by simp
qed

lemma toFixed2_close:
  assumes "0 \<le> x"
  shows "x - 1 / 200 \<le> toFixed2 x \<and> toFixed2 x \<le> x + 1 / 200"
proof (cases "x < 10 ^ 21")
  case True
  with assms show ?thesis by (rule toFixed2_near)
next
  case False
  then have "toFixed2 x = x" using assms by (intro toFixed2_big) simp
  then show ?thesis by simp
qed

lemma parseFixed2_strict:
  assumes x: "0 \<le> x" and xy: "x + 1 / 100 \<le> y" and rel: "x + y / 30000 \<le> y"
  shows "parseFixed2 x < parseFixed2 y"
proof -
  define u where "u = toFixed2 x"
  define v where "v = toFixed2 y"
  have y0: "0 \<le> y" using x xy by simp
  have u0: "u = 0 \<or> 1 / 100 \<le> u" unfolding u_def using x by (rule toFixed2_cents)
  have ux: "u \<le> x + 1 / 200" using toFixed2_close [OF x] by (simp add: u_def)
  have vy: "y - 1 / 200 \<le> v" "v \<le> y + 1 / 200" using toFixed2_close [OF y0] by (simp_all add: v_def)
  have zu: "u = 0 \<or> 1 / 1000000 \<le> u" using u0 by linarith
  have zv: "v = 0 \<or> 1 / 1000000 \<le> v" using vy(1) x xy by linarith
  have U: "binary64 u \<le> u + u / 9007199254740992" using binary64_rel [OF zu] by simp
  have V: "v - v / 9007199254740992 \<le> binary64 v" using binary64_rel [OF zv] by simp
  have "binary64 u < binary64 v"
  proof (cases "y \<le> 2000000000000")
    case True
    then have "y < 10 ^ 21" by simp
    with x xy have "u + 1 / 100 \<le> v" unfolding u_def v_def by (rule toFixed2_gap)
    then show ?thesis using U V u0 vy True by linarith
  next
    case False
    then show ?thesis using U V u0 ux vy rel x by linarith
  qed
  then show ?thesis by (simp add: parseFixed2_def u_def v_def)
qed



lemma best_bid_less_best_ask:
  assumes "51 \<le> bp"
  shows "bidPrice bp (binary64 (bp * binary64 (1 / 10000))) 0
       < askPrice bp (binary64 (bp * binary64 (1 / 10000))) 0"
  unfolding bidPrice_def askPrice_def
  using spread_raw_gap [OF assms] by (intro parseFixed2_strict)

lemma bid_less_ask:
  assumes "51 \<le> bp"
  shows "bidPrice bp (binary64 (bp * binary64 (1 / 10000))) i
       < askPrice bp (binary64 (bp * binary64 (1 / 10000))) j"
proof -
  have s: "0 \<le> binary64 (bp * binary64 (1 / 10000))"
    using assms by (intro spread_nonneg) simp
  have "bidPrice bp (binary64 (bp * binary64 (1 / 10000))) i
      \<le> bidPrice bp (binary64 (bp * binary64 (1 / 10000))) 0"
    using s by (intro bidPrice_antimono) simp_all
  also have "\<dots> < askPrice bp (binary64 (bp * binary64 (1 / 10000))) 0"
    using assms by (rule best_bid_less_best_ask)
  also have "\<dots> \<le> askPrice bp (binary64 (bp * binary64 (1 / 10000))) j"
    using s by (intro askPrice_mono) simp_all
  finally show ?thesis .
qed



subsection \<open>Price of a demo tick\<close>

lemma binary64_abs_le:
  assumes "\<bar>x\<bar> \<le> b"
  shows "\<bar>binary64 x\<bar> \<le> binary64 b"
proof -
  have "x \<le> b" "- b \<le> x" using assms by linarith+
  then have "binary64 x \<le> binary64 b" "binary64 (- b) \<le> binary64 x"
    by (simp_all add: binary64_mono)
  then show ?thesis by (simp add: binary64_minus abs_le_iff)
qed

lemma tickPrice_bounds:
  assumes bp: "1 \<le> bp" and r: "0 \<le> r" "r \<le> 1"
  shows "bp * (999 / 1000) \<le> tickPrice bp r \<and> tickPrice bp r \<le> bp * (1001 / 1000)"
proof -
  define a where "a = binary64 (r - 1 / 2)"
  define b where "b = binary64 (a * bp)"
  define c where "c = binary64 (1 / 1000)"
  define d where "d = binary64 (b * c)"
  define e where "e = bp + d"
  define h where "h = binary64 (1 / 2)"
  define k where "k = bp * (51 / 100)"
  define m where "m = bp * (52 / 100000)"
  have "\<bar>r - 1 / 2\<bar> \<le> 1 / 2" using r by linarith
  then have "\<bar>a\<bar> \<le> h" unfolding a_def h_def by (rule binary64_abs_le)
  moreover have "h \<le> 1 / 2 + 1 / 2 / 9007199254740992"
    using binary64_rel [of "1 / 2"] by (simp add: h_def)
  ultimately have a: "\<bar>a\<bar> \<le> 51 / 100" by linarith
  have "\<bar>a * bp\<bar> = \<bar>a\<bar> * bp" using bp by (simp add: abs_mult)
  also have "\<dots> \<le> 51 / 100 * bp" using a bp by (intro mult_right_mono) simp_all
  finally have "\<bar>a * bp\<bar> \<le> k" by (simp add: k_def)
  then have "\<bar>b\<bar> \<le> binary64 k" unfolding b_def by (rule binary64_abs_le)
  moreover have "1 / 1000000 \<le> k" using bp k_def by linarith
  then have "binary64 k \<le> k + k / 9007199254740992" using binary64_rel [of k] by simp
  ultimately have b: "\<bar>b\<bar> \<le> bp * (515 / 1000)" using k_def bp by linarith
  have c: "0 \<le> c" "c \<le> 1001 / 1000000"
    using binary64_rel [of "1 / 1000"] by (simp_all add: c_def)
  have "\<bar>b * c\<bar> = \<bar>b\<bar> * c" using c(1) by (simp add: abs_mult)
  also have "\<dots> \<le> bp * (515 / 1000) * (1001 / 1000000)"
    using b c bp by (intro mult_mono) simp_all
  also have "\<dots> \<le> m" using bp by (simp add: m_def)
  finally have "\<bar>d\<bar> \<le> binary64 m" unfolding d_def by (rule binary64_abs_le)
  moreover have "1 / 1000000 \<le> m" using bp m_def by linarith
  then have "binary64 m \<le> m + m / 9007199254740992" using binary64_rel [of m] by simp
  ultimately have d: "\<bar>d\<bar> \<le> bp * (53 / 100000)" using m_def bp by linarith
  have e1: "1 / 1000000 \<le> e" using d bp e_def by linarith
  have "e - e / 9007199254740992 \<le> binary64 e \<and> binary64 e \<le> e + e / 9007199254740992"
    using binary64_rel [of e] e1 by simp
  then have "bp * (999 / 1000) \<le> binary64 e \<and> binary64 e \<le> bp * (1001 / 1000)"
    using d bp e_def by linarith
  then show ?thesis
    by (simp add: tickPrice_def e_def d_def c_def b_def a_def)
qed

lemma demoBasePrice_range: "100 \<le> demoBasePrice symb \<and> demoBasePrice symb \<le> 45000"
  by (simp add: demoBasePrice_def DEMO_PRICES_def)

lemma binary64_1: "binary64 1 = 1"
proof -
  have "bitLength 1 = 1" by (simp add: bitLength.simps)
  then have "exponent 1 = 0" by (simp add: exponent_def)
  then have u: "ulp 1 = 1 / 2 ^ 52" by (simp add: ulp_def power_int_minus_divide)
  have "roundEven (1 / ulp 1) = 2 ^ 52"
    using roundEven_of_int [of "2 ^ 52"] by (simp add: u)
  then show ?thesis by (simp add: binary64_pos u)
qed

lemma toFixed2_eqI:
  assumes "of_int n / 100 - 1 / 200 \<le> x" "x < of_int n / 100 + 1 / 200" "0 \<le> x" "x < 10 ^ 21"
  shows "toFixed2 x = of_int n / 100"
proof -
  have "of_int n \<le> x * 100 + 1 / 2" "x * 100 + 1 / 2 < of_int n + 1"
    using assms(1,2) by (simp_all add: field_simps)
  then have "\<lfloor>x * 100 + 1 / 2\<rfloor> = n" by (simp add: floor_eq_iff)
  then show ?thesis using assms(3,4) by (simp add: toFixed2_small)
qed

subsection \<open>Two books with equal prices\<close>

lemma binary64_within:
  assumes "1 / 1000000 \<le> x" "x \<le> 1000"
  shows "x - 1 / 1000000000000 \<le> binary64 x \<and> binary64 x \<le> x + 1 / 1000000000000"
  using binary64_rel [of x] assms by linarith



lemma unit_base_example:
  "bidPrice 1 (binary64 (1 * binary64 (1 / 10000))) 0 = 1 \<and>
   askPrice 1 (binary64 (1 * binary64 (1 / 10000))) 0 = 1"
proof -
  define c where "c = binary64 (1 / 10000)"
  define s where "s = binary64 c"
  define d where "d = 1 - s"
  define d' where "d' = 1 + s"
  define A where "A = binary64 d"
  define A' where "A' = binary64 d'"
  have c: "1 / 10000 - 1 / 1000000000000 \<le> c" "c \<le> 1 / 10000 + 1 / 1000000000000"
    using binary64_within [of "1 / 10000"] by (simp_all add: c_def)
  then have "1 / 1000000 \<le> c" "c \<le> 1000" by linarith+
  then have s: "c - 1 / 1000000000000 \<le> s" "s \<le> c + 1 / 1000000000000"
    using binary64_within [of c] by (simp_all add: s_def)
  have "1 / 1000000 \<le> d" "d \<le> 1000" using s c d_def by linarith+
  then have A: "d - 1 / 1000000000000 \<le> A" "A \<le> d + 1 / 1000000000000"
    using binary64_within [of d] by (simp_all add: A_def)
  have "1 / 1000000 \<le> d'" "d' \<le> 1000" using s c d'_def by linarith+
  then have A': "d' - 1 / 1000000000000 \<le> A'" "A' \<le> d' + 1 / 1000000000000"
    using binary64_within [of d'] by (simp_all add: A'_def)
  have "1 / 1000000 \<le> A" "A \<le> 1000" using A s c d_def by linarith+
  then have R: "A - 1 / 1000000000000 \<le> binary64 A" "binary64 A \<le> A + 1 / 1000000000000"
    using binary64_within [of A] by simp_all
  have "1 / 1000000 \<le> A'" "A' \<le> 1000" using A' s c d'_def by linarith+
  then have R': "A' - 1 / 1000000000000 \<le> binary64 A'" "binary64 A' \<le> A' + 1 / 1000000000000"
    using binary64_within [of A'] by simp_all
  have "toFixed2 (binary64 A) = of_int 100 / 100"
    using R A s c d_def by (intro toFixed2_eqI) (simp; linarith)+
  then have f: "toFixed2 (binary64 A) = 1" by simp
  have "toFixed2 (binary64 A') = of_int 100 / 100"
    using R' A' s c d'_def by (intro toFixed2_eqI) (simp; linarith)+
  then have f': "toFixed2 (binary64 A') = 1" by simp
  have "bidPrice 1 s 0 = binary64 (toFixed2 (binary64 A))"
    by (simp add: bidPrice_def parseFixed2_def binary64_0 A_def d_def)
  then have b: "bidPrice 1 s 0 = 1" by (simp only: f binary64_1)
  have "askPrice 1 s 0 = binary64 (toFixed2 (binary64 A'))"
    by (simp add: askPrice_def parseFixed2_def binary64_0 A'_def d'_def)
  then have a: "askPrice 1 s 0 = 1" by (simp only: f' binary64_1)
  have "s = binary64 (1 * binary64 (1 / 10000))" by (simp add: s_def c_def)
  with b a show ?thesis by simp
qed

subsection \<open>The trade list\<close>

lemma pushTrade_Cons: "pushTrade t prev = t # take 99 prev"
  by (simp add: pushTrade_def)

lemma foldl_pushTrade:
  "foldl (\<lambda>s t. pushTrade t s) prev ts = (if ts = [] then prev else take 100 (rev ts @ prev))"
proof (induction ts rule: rev_induct)
  case Nil
  then show ?case by simp
next
  case (snoc t ts)
  then show ?case by (simp add: pushTrade_def min_def)
qed

text \<open>
  Claim C3. Every append to the trade list, by a live trade message or by the demo
  timer, puts the new trade at the head and keeps the first 99 of the previous
  trades in their order, so the list never holds more than 100 trades and the ones
  dropped are the oldest. Appending the trades \<open>ts\<close> one after the other to the empty
  list gives the last 100 of them, newest first.
\<close>

theorem trades_capped_newest_first:
  "(d_e msg = ''trade'' \<longrightarrow>
      processTrade Binance msg prev =
        \<lparr>trade_id = toString (d_t msg), price = d_p msg, amount = d_q msg,
         time = d_T msg, isBuyerMaker = d_m msg\<rparr> # take 99 prev) \<and>
   trades (demoTick basePrice rnd now now' st) =
     generateDemoTrade (tickPrice basePrice (rnd 0))
       (tradeCounter st) (\<lambda>n. rnd (n + 41)) now' # take 99 (trades st) \<and>
   length (pushTrade t prev) \<le> 100 \<and>
   foldl (\<lambda>s t. pushTrade t s) [] ts = take 100 (rev ts)"
proof -
  have "length (pushTrade t prev) \<le> 100"
    by (simp add: pushTrade_def)
  moreover have "foldl (\<lambda>s t. pushTrade t s) [] ts = take 100 (rev ts)"
    by (simp add: foldl_pushTrade)
  ultimately show ?thesis
    by (simp add: processTrade_def demoTick_def Let_def pushTrade_Cons)
qed

theorem trades_capped_newest_first_witness:
  "processTrade Binance
     \<lparr>d_e = ''trade'', d_b = [], d_a = [], d_t = 42, d_p = 100, d_q = 2, d_T = 7, d_m = True\<rparr>
     (replicate 100 \<lparr>trade_id = ''0'', price = 1, amount = 1, time = 0, isBuyerMaker = False\<rparr>)
   = \<lparr>trade_id = ''42'', price = 100, amount = 2, time = 7, isBuyerMaker = True\<rparr>
     # replicate 99 \<lparr>trade_id = ''0'', price = 1, amount = 1, time = 0, isBuyerMaker = False\<rparr>"
proof -
  have "toString 42 = ''42''" by code_simp
  with trades_capped_newest_first
    [of "\<lparr>d_e = ''trade'', d_b = [], d_a = [], d_t = 42, d_p = 100, d_q = 2, d_T = 7, d_m = True\<rparr>"
        "replicate 100 \<lparr>trade_id = ''0'', price = 1, amount = 1, time = 0, isBuyerMaker = False\<rparr>"]
  show ?thesis by simp
qed

subsection \<open>Selection and connection\<close>

text \<open>
  Claim C4. When the asset type is switched to the other class, the provider becomes
  the demo provider and the symbol becomes that class's default symbol, which is
  BTCUSDT for crypto and AAPL for stock.
\<close>

theorem asset_switch_resets:
  "assetType sel \<noteq> newType \<Longrightarrow>
   provider (switchAssetType newType sel) = Demo \<and>
   symbol (switchAssetType newType sel) = DEFAULT_SYMBOLS newType \<and>
   assetType (switchAssetType newType sel) = newType \<and>
   DEFAULT_SYMBOLS Crypto = ''BTCUSDT'' \<and> DEFAULT_SYMBOLS Stock = ''AAPL''"
  by (simp add: switchAssetType_def symbolEffect_def handleAssetTypeChange_def DEFAULT_SYMBOLS_def)

theorem asset_switch_resets_witness:
  "provider (switchAssetType Stock \<lparr>assetType = Crypto, symbol = ''ETHUSDT'', provider = Binance\<rparr>) = Demo \<and>
   symbol (switchAssetType Stock \<lparr>assetType = Crypto, symbol = ''ETHUSDT'', provider = Binance\<rparr>) = ''AAPL''"
  using asset_switch_resets
    [of "\<lparr>assetType = Crypto, symbol = ''ETHUSDT'', provider = Binance\<rparr>" Stock]
  by (simp add: DEFAULT_SYMBOLS_def)

subsection \<open>Fallback to the demo source\<close>

lemma closeExisting_refs:
  "ws (closeExisting st) = ws st \<and> length (sockets (closeExisting st)) = length (sockets st) \<and>
   nextTimer (closeExisting st) = nextTimer st \<and> trades (closeExisting st) = trades st"
  by (simp add: closeExisting_def wsClose_def Let_def split: option.splits)

text \<open>
  Claim C6. For Binance with the stock asset type, and for Alpaca and Polygon,
  \<^verbatim>\<open>connect\<close> does what the demo connection does after the existing source was
  closed: the feed is marked connected, a demo book is stored, a fresh demo timer is
  registered and named by the ref, and no socket is created.
\<close>

theorem unsupported_selection_falls_back_to_demo:
  "(p = Binance \<and> a = Stock) \<or> p = Alpaca \<or> p = Polygon \<Longrightarrow>
   connect p a symb rnd now st = connectDemo symb rnd now (closeExisting st) \<and>
   isConnected (connect p a symb rnd now st) \<and>
   orderBook (connect p a symb rnd now st) =
     Some (generateDemoOrderBook (demoBasePrice symb) rnd now) \<and>
   demoInterval (connect p a symb rnd now st) = Some (nextTimer st) \<and>
   (nextTimer st, demoBasePrice symb) \<in> set (intervals (connect p a symb rnd now st)) \<and>
   ws (connect p a symb rnd now st) = ws st \<and>
   length (sockets (connect p a symb rnd now st)) = length (sockets st)"
  by (auto simp: connect_def connectDemo_def Let_def closeExisting_refs)

theorem unsupported_selection_falls_back_to_demo_witness:
  "demoInterval (connect Binance Stock ''AAPL'' (\<lambda>_. 1 / 2) 5 initialFeed) = Some 1 \<and>
   demoInterval (connect Alpaca Stock ''AAPL'' (\<lambda>_. 1 / 2) 5 initialFeed) = Some 1 \<and>
   demoInterval (connect Polygon Crypto ''AAPL'' (\<lambda>_. 1 / 2) 5 initialFeed) = Some 1 \<and>
   sockets (connect Polygon Crypto ''AAPL'' (\<lambda>_. 1 / 2) 5 initialFeed) = []"
  using unsupported_selection_falls_back_to_demo [of Binance Stock "''AAPL''" "\<lambda>_. 1 / 2" 5 initialFeed]
    unsupported_selection_falls_back_to_demo [of Alpaca Stock "''AAPL''" "\<lambda>_. 1 / 2" 5 initialFeed]
    unsupported_selection_falls_back_to_demo [of Polygon Crypto "''AAPL''" "\<lambda>_. 1 / 2" 5 initialFeed]
  apply (simp add: initialFeed_def)
  apply (elim conjE)
  apply simp
  done

subsection \<open>Order of the book sides\<close>






lemma any_tick_price:
  assumes "0 \<le> r" "r < 1"
  shows "51 \<le> tickPrice (demoBasePrice symb) r \<and> tickPrice (demoBasePrice symb) r \<le> 10 ^ 300"
proof -
  have b: "100 \<le> demoBasePrice symb" "demoBasePrice symb \<le> 45000"
    using demoBasePrice_range [of symb] by simp_all
  then have "1 \<le> demoBasePrice symb" by simp
  then have "demoBasePrice symb * (999 / 1000) \<le> tickPrice (demoBasePrice symb) r \<and>
      tickPrice (demoBasePrice symb) r \<le> demoBasePrice symb * (1001 / 1000)"
    using tickPrice_bounds [of "demoBasePrice symb" r] assms by simp
  with b have "51 \<le> tickPrice (demoBasePrice symb) r \<and> tickPrice (demoBasePrice symb) r \<le> 50000"
    by linarith
  moreover have "(50000::rat) \<le> 10 ^ 300" by simp
  ultimately show ?thesis by linarith
qed

text \<open>
  Claim C9, amended. A demo book has exactly 20 bid levels and 20 ask levels for every
  base price. No bid price is above an ask price when the base price is not negative,
  and every bid price is strictly below every ask price when the base price is at
  least 51 (and at most \<open>10\<^sup>3\<^sup>0\<^sup>0\<close>, far below the largest double). The base
  prices of the demo connection and of its timer lie in that range: the demo price of
  a symbol is at least 100, and a tick moves it by less than a thousandth.
\<close>

theorem demo_book_twenty_levels_positive_spread:
  "length (bids (generateDemoOrderBook basePrice rnd now)) = 20 \<and>
   length (asks (generateDemoOrderBook basePrice rnd now)) = 20 \<and>
   (0 \<le> basePrice \<longrightarrow>
      (\<forall>b \<in> set (bids (generateDemoOrderBook basePrice rnd now)).
       \<forall>a \<in> set (asks (generateDemoOrderBook basePrice rnd now)). fst b \<le> fst a)) \<and>
   (51 \<le> basePrice \<and> basePrice \<le> 10 ^ 300 \<longrightarrow>
      (\<forall>b \<in> set (bids (generateDemoOrderBook basePrice rnd now)).
       \<forall>a \<in> set (asks (generateDemoOrderBook basePrice rnd now)). fst b < fst a)) \<and>
   (0 \<le> r \<and> r < 1 \<longrightarrow>
      51 \<le> demoBasePrice symb \<and> demoBasePrice symb \<le> 10 ^ 300 \<and>
      51 \<le> tickPrice (demoBasePrice symb) r \<and> tickPrice (demoBasePrice symb) r \<le> 10 ^ 300)"
proof -
  have "fst b \<le> fst a"
    if "0 \<le> basePrice" "b \<in> set (bids (generateDemoOrderBook basePrice rnd now))"
       "a \<in> set (asks (generateDemoOrderBook basePrice rnd now))" for a b
    using that bid_le_ask [OF spread_nonneg [OF that(1)], of basePrice]
    by (auto simp: demo_bids demo_asks)
  moreover have "fst b < fst a"
    if "51 \<le> basePrice" "b \<in> set (bids (generateDemoOrderBook basePrice rnd now))"
       "a \<in> set (asks (generateDemoOrderBook basePrice rnd now))" for a b
    using that bid_less_ask [OF that(1)]
    by (auto simp: demo_bids demo_asks)
  moreover have "51 \<le> demoBasePrice symb \<and> demoBasePrice symb \<le> 10 ^ 300"
  proof -
    have "100 \<le> demoBasePrice symb" "demoBasePrice symb \<le> 45000"
      using demoBasePrice_range [of symb] by simp_all
    moreover have "(45000::rat) \<le> 10 ^ 300" by simp
    ultimately show ?thesis by linarith
  qed
  ultimately show ?thesis
    using any_tick_price [of r symb] by (simp add: demo_bids demo_asks)
qed

theorem demo_book_twenty_levels_positive_spread_witness:
  "fst (bids (generateDemoOrderBook 175 (\<lambda>_. 1 / 2) 0) ! 0)
     < fst (asks (generateDemoOrderBook 175 (\<lambda>_. 1 / 2) 0) ! 0) \<and>
   51 \<le> tickPrice (demoBasePrice ''AAPL'') (1 / 4)"
proof -
  have "bids (generateDemoOrderBook 175 (\<lambda>_. 1 / 2) 0) ! 0
          \<in> set (bids (generateDemoOrderBook 175 (\<lambda>_. 1 / 2) 0))"
       "asks (generateDemoOrderBook 175 (\<lambda>_. 1 / 2) 0) ! 0
          \<in> set (asks (generateDemoOrderBook 175 (\<lambda>_. 1 / 2) 0))"
    using demo_book_twenty_levels_positive_spread [of 175 "\<lambda>_. 1 / 2" 0] by simp_all
  with demo_book_twenty_levels_positive_spread [of 175 "\<lambda>_. 1 / 2" 0 "1 / 4" "''AAPL''"]
  show ?thesis by simp
qed

text \<open>
  At base price 1 the best bid and the best ask are both 1.00.
\<close>

theorem demo_spread_counterexample:
  "fst (bids (generateDemoOrderBook 1 (\<lambda>_. 1 / 2) 0) ! 0) = 1 \<and>
   fst (asks (generateDemoOrderBook 1 (\<lambda>_. 1 / 2) 0) ! 0) = 1 \<and>
   \<not> fst (bids (generateDemoOrderBook 1 (\<lambda>_. 1 / 2) 0) ! 0)
      < fst (asks (generateDemoOrderBook 1 (\<lambda>_. 1 / 2) 0) ! 0)"
  using unit_base_example by (simp add: demo_bids demo_asks)


text \<open>
  A depth update handled by a socket that captured a stored snapshot: the bid at 2 is
  removed, a bid at 5 is added and the bid at 3 gets a new size.
\<close>

lemma depth_update_example:
  "processOrderBookUpdate Binance
     (Some \<lparr>bids = [(3, 1), (2, 1), (1, 1)], asks = [(6, 1), (7, 1)], lastUpdateId = 7\<rparr>)
     \<lparr>d_e = ''depthUpdate'', d_b = [(2, 0), (5, 1), (3, 4)], d_a = [], d_t = 0, d_p = 0,
      d_q = 0, d_T = 0, d_m = False\<rparr>
     initialFeed
   = Inr (initialFeed
       \<lparr>orderBook :=
          Some \<lparr>bids = [(5, 1), (3, 4), (1, 1)], asks = [(6, 1), (7, 1)], lastUpdateId = 7\<rparr>\<rparr>)"
  by (simp add: processOrderBookUpdate_def updateBook_def sortBy_def applyBid_def)



subsection \<open>The update identifier\<close>

text \<open>
  Claim C7, amended. An incremental depth update stores a book that carries the update
  id of the book its handler copied: the id is not read from the message and is not
  increased, so a handler that copies the stored book leaves the stored id as it is.
  A demo book, at connection and at every tick, carries the clock reading of its
  generation; a snapshot carries the id the exchange sent.
\<close>

theorem update_id_sources:
  "(processOrderBookUpdate Binance (Some ob) msg st = Inr st' \<and> d_e msg = ''depthUpdate'' \<longrightarrow>
      map_option lastUpdateId (orderBook st') = Some (lastUpdateId ob)) \<and>
   lastUpdateId (generateDemoOrderBook basePrice rnd now) = now \<and>
   map_option lastUpdateId (orderBook (connectDemo symb rnd now st)) = Some now \<and>
   map_option lastUpdateId (orderBook (demoTick basePrice rnd now now' st)) = Some now \<and>
   map_option lastUpdateId (orderBook (snapshotLoaded snapshot st))
     = Some (snap_lastUpdateId snapshot)"
  by (auto simp: processOrderBookUpdate_def updateBook_def generateDemoOrderBook_def
      connectDemo_def demoTick_def snapshotLoaded_def processSnapshot_def Let_def)

theorem update_id_sources_witness:
  "map_option lastUpdateId
     (orderBook (initialFeed
        \<lparr>orderBook :=
           Some \<lparr>bids = [(5, 1), (3, 4), (1, 1)], asks = [(6, 1), (7, 1)],
                 lastUpdateId = 7\<rparr>\<rparr>))
     = Some (lastUpdateId
        \<lparr>bids = [(3, 1), (2, 1), (1, 1)], asks = [(6, 1), (7, 1)], lastUpdateId = 7\<rparr>)"
  using depth_update_example
    update_id_sources
      [of "\<lparr>bids = [(3, 1), (2, 1), (1, 1)], asks = [(6, 1), (7, 1)], lastUpdateId = 7\<rparr>"
          "\<lparr>d_e = ''depthUpdate'', d_b = [(2, 0), (5, 1), (3, 4)], d_a = [], d_t = 0, d_p = 0,
            d_q = 0, d_T = 0, d_m = False\<rparr>"
          initialFeed
          "initialFeed
             \<lparr>orderBook :=
                Some \<lparr>bids = [(5, 1), (3, 4), (1, 1)], asks = [(6, 1), (7, 1)],
                      lastUpdateId = 7\<rparr>\<rparr>"]
  by simp

text \<open>
  A snapshot with update id 7 is stored, the socket created next captures it, and a
  depth update arrives on that socket: the book stored afterwards has update id 7 too.
\<close>

theorem update_id_counterexample:
  "orderBook (connectBinance Binance ''BTCUSDT''
     (snapshotLoaded
        \<lparr>snap_bids = [(3, 1), (2, 1), (1, 1)], snap_asks = [(6, 1)], snap_lastUpdateId = 7\<rparr>
        initialFeed))
     = Some \<lparr>bids = [(3, 1), (2, 1), (1, 1)], asks = [(6, 1)], lastUpdateId = 7\<rparr> \<and>
   map_sum id orderBook
     (wsOnMessage 0
        \<lparr>d_e = ''depthUpdate'', d_b = [(2, 0)], d_a = [], d_t = 0, d_p = 0,
         d_q = 0, d_T = 0, d_m = False\<rparr>
        (connectBinance Binance ''BTCUSDT''
           (snapshotLoaded
              \<lparr>snap_bids = [(3, 1), (2, 1), (1, 1)], snap_asks = [(6, 1)],
               snap_lastUpdateId = 7\<rparr>
              initialFeed)))
     = Inr (Some \<lparr>bids = [(3, 1), (1, 1)], asks = [(6, 1)], lastUpdateId = 7\<rparr>) \<and>
   \<not> lastUpdateId \<lparr>bids = [(3, 1), (2, 1), (1, 1)], asks = [(6, 1)], lastUpdateId = 7\<rparr>
       < lastUpdateId \<lparr>bids = [(3, 1), (1, 1)], asks = [(6, 1)], lastUpdateId = 7\<rparr>"
  by (simp add: wsOnMessage_def onmessage_def processOrderBookUpdate_def connectBinance_def
      snapshotLoaded_def processSnapshot_def updateBook_def sortBy_def applyBid_def
      initialFeed_def)

subsection \<open>Price levels of a depth update\<close>

text \<open>
  Claim C1. A depth update whose ask entry for price 100 has size zero, handled on a
  book with an ask at 100 (the stored book, which the handler copies), leaves that ask
  in the book: the ask entries of the message are not applied.
\<close>

theorem ask_removal_ignored:
  "processOrderBookUpdate Binance
     (orderBook (snapshotLoaded
        \<lparr>snap_bids = [(99, 1)], snap_asks = [(100, 5)], snap_lastUpdateId = 7\<rparr> initialFeed))
     \<lparr>d_e = ''depthUpdate'', d_b = [], d_a = [(100, 0)], d_t = 0, d_p = 0,
      d_q = 0, d_T = 0, d_m = False\<rparr>
     (snapshotLoaded
        \<lparr>snap_bids = [(99, 1)], snap_asks = [(100, 5)], snap_lastUpdateId = 7\<rparr> initialFeed)
   = Inr (snapshotLoaded
        \<lparr>snap_bids = [(99, 1)], snap_asks = [(100, 5)], snap_lastUpdateId = 7\<rparr> initialFeed) \<and>
   orderBook (snapshotLoaded
        \<lparr>snap_bids = [(99, 1)], snap_asks = [(100, 5)], snap_lastUpdateId = 7\<rparr> initialFeed)
   = Some \<lparr>bids = [(99, 1)], asks = [(100, 5)], lastUpdateId = 7\<rparr>"
  by (simp add: processOrderBookUpdate_def snapshotLoaded_def processSnapshot_def
      updateBook_def sortBy_def applyBid_def initialFeed_def)

text \<open>
  On the bid side the last entry of the update for a price decides: with size zero the
  price is absent from the resulting bids, with another size the entry is one of the
  resulting bids; levels of the copied book whose price the update does not name are
  kept.
\<close>

theorem bid_entries_applied:
  "processOrderBookUpdate Binance (Some ob) msg st = Inr st' \<and> d_e msg = ''depthUpdate'' \<and>
   d_b msg = xs @ (p, a) # ys \<and> p \<notin> fst ` set ys \<Longrightarrow>
   (\<exists>ob'. orderBook st' = Some ob' \<and>
      (a = 0 \<longrightarrow> p \<notin> fst ` set (bids ob')) \<and>
      (a \<noteq> 0 \<longrightarrow> (p, a) \<in> set (bids ob')) \<and>
      (\<forall>l. fst l \<notin> fst ` set (d_b msg) \<longrightarrow> (l \<in> set (bids ob') \<longleftrightarrow> l \<in> set (bids ob))))"
proof -
  assume h: "processOrderBookUpdate Binance (Some ob) msg st = Inr st' \<and>
   d_e msg = ''depthUpdate'' \<and> d_b msg = xs @ (p, a) # ys \<and> p \<notin> fst ` set ys"
  then have "orderBook st' = Some (updateBook ob msg)"
    by (auto simp: processOrderBookUpdate_def)
  moreover have "set (bids (updateBook ob msg)) = set (foldl applyBid (bids ob) (d_b msg))"
    by (simp add: updateBook_def set_sortBy)
  moreover from h have "(a = 0 \<longrightarrow> p \<notin> fst ` set (foldl applyBid (bids ob) (d_b msg))) \<and>
         (a \<noteq> 0 \<longrightarrow> (p, a) \<in> set (foldl applyBid (bids ob) (d_b msg)))"
    using foldl_applyBid_last [of p ys a "bids ob" xs] by simp
  ultimately show ?thesis
    by (simp add: foldl_applyBid_other)
qed

theorem bid_entries_applied_witness:
  "\<exists>ob'. orderBook (initialFeed
        \<lparr>orderBook :=
           Some \<lparr>bids = [(5, 1), (3, 4), (1, 1)], asks = [(6, 1), (7, 1)],
                 lastUpdateId = 7\<rparr>\<rparr>) = Some ob' \<and> 2 \<notin> fst ` set (bids ob')"
  using depth_update_example
    bid_entries_applied
      [of "\<lparr>bids = [(3, 1), (2, 1), (1, 1)], asks = [(6, 1), (7, 1)], lastUpdateId = 7\<rparr>"
          "\<lparr>d_e = ''depthUpdate'', d_b = [(2, 0), (5, 1), (3, 4)], d_a = [], d_t = 0, d_p = 0,
            d_q = 0, d_T = 0, d_m = False\<rparr>"
          initialFeed
          "initialFeed
             \<lparr>orderBook :=
                Some \<lparr>bids = [(5, 1), (3, 4), (1, 1)], asks = [(6, 1), (7, 1)],
                      lastUpdateId = 7\<rparr>\<rparr>"
          "[]" 2 0 "[(5, 1), (3, 4)]"]
  by simp

subsection \<open>Teardown of the data source\<close>

text \<open>
  Claim C8. The trace: the component mounts with the demo provider; the user selects
  Binance (the handler calls \<^verbatim>\<open>reconnect\<close> of the current render, then the effect
  runs for the new selection) and socket 0 starts connecting; before it is open the
  user selects another symbol, and the handler's \<^verbatim>\<open>reconnect\<close> opens socket 1 without
  closing socket 0, so two sockets are alive; the effect for the new symbol closes
  socket 1 and opens socket 2; the user switches to stocks, the effect closes socket 2
  and starts the demo timer. Socket 0 is still connecting while the demo timer runs.
\<close>

theorem connecting_socket_outlives_teardown:
  "liveSockets
     (reconnect Binance Crypto ''BTCUSDT'' (\<lambda>_. 1 / 2) 0
       (selectionChanged Binance Crypto ''BTCUSDT'' (\<lambda>_. 1 / 2) 0
         (reconnect Demo Crypto ''BTCUSDT'' (\<lambda>_. 1 / 2) 0
           (connect Demo Crypto ''BTCUSDT'' (\<lambda>_. 1 / 2) 0 initialFeed)))) = 2 \<and>
   map readyState (sockets
     (selectionChanged Demo Stock ''AAPL'' (\<lambda>_. 1 / 2) 0
       (selectionChanged Binance Crypto ''ETHUSDT'' (\<lambda>_. 1 / 2) 0
         (reconnect Binance Crypto ''BTCUSDT'' (\<lambda>_. 1 / 2) 0
           (selectionChanged Binance Crypto ''BTCUSDT'' (\<lambda>_. 1 / 2) 0
             (reconnect Demo Crypto ''BTCUSDT'' (\<lambda>_. 1 / 2) 0
               (connect Demo Crypto ''BTCUSDT'' (\<lambda>_. 1 / 2) 0 initialFeed)))))))
     = [CONNECTING, CLOSING, CLOSING] \<and>
   liveSockets
     (selectionChanged Demo Stock ''AAPL'' (\<lambda>_. 1 / 2) 0
       (selectionChanged Binance Crypto ''ETHUSDT'' (\<lambda>_. 1 / 2) 0
         (reconnect Binance Crypto ''BTCUSDT'' (\<lambda>_. 1 / 2) 0
           (selectionChanged Binance Crypto ''BTCUSDT'' (\<lambda>_. 1 / 2) 0
             (reconnect Demo Crypto ''BTCUSDT'' (\<lambda>_. 1 / 2) 0
               (connect Demo Crypto ''BTCUSDT'' (\<lambda>_. 1 / 2) 0 initialFeed)))))) = 1 \<and>
   liveDemoTimers
     (selectionChanged Demo Stock ''AAPL'' (\<lambda>_. 1 / 2) 0
       (selectionChanged Binance Crypto ''ETHUSDT'' (\<lambda>_. 1 / 2) 0
         (reconnect Binance Crypto ''BTCUSDT'' (\<lambda>_. 1 / 2) 0
           (selectionChanged Binance Crypto ''BTCUSDT'' (\<lambda>_. 1 / 2) 0
             (reconnect Demo Crypto ''BTCUSDT'' (\<lambda>_. 1 / 2) 0
               (connect Demo Crypto ''BTCUSDT'' (\<lambda>_. 1 / 2) 0 initialFeed)))))) = 1"
  by (simp add: liveSockets_def liveDemoTimers_def selectionChanged_def reconnect_def
      connect_def closeExisting_def effectCleanup_def connectDemo_def connectBinance_def
      wsClose_def clearInterval_def clearTimeout_def initialFeed_def Let_def)

subsection \<open>Messages on a socket of an earlier selection\<close>

text \<open>
  Claim C10. The trace of the teardown above ends with the demo provider selected
  for AAPL and socket 0, which the Binance selection created, still connecting. The
  socket opens and a trade message arrives on it: its handler runs with the provider
  it captured, Binance, and puts the trade at the head of the trade list, although
  the selected provider is the demo provider.
\<close>

theorem leaked_socket_trade_processed:
  "map (\<lambda>s. (readyState s, capturedProvider s))
     (sockets
       (wsOnOpen 0
         (selectionChanged Demo Stock ''AAPL'' (\<lambda>_. 1 / 2) 0
           (selectionChanged Binance Crypto ''ETHUSDT'' (\<lambda>_. 1 / 2) 0
             (reconnect Binance Crypto ''BTCUSDT'' (\<lambda>_. 1 / 2) 0
               (selectionChanged Binance Crypto ''BTCUSDT'' (\<lambda>_. 1 / 2) 0
                 (reconnect Demo Crypto ''BTCUSDT'' (\<lambda>_. 1 / 2) 0
                   (connect Demo Crypto ''BTCUSDT'' (\<lambda>_. 1 / 2) 0 initialFeed))))))))
     = [(OPEN, Binance), (CLOSING, Binance), (CLOSING, Binance)] \<and>
   trades
     (wsOnOpen 0
       (selectionChanged Demo Stock ''AAPL'' (\<lambda>_. 1 / 2) 0
         (selectionChanged Binance Crypto ''ETHUSDT'' (\<lambda>_. 1 / 2) 0
           (reconnect Binance Crypto ''BTCUSDT'' (\<lambda>_. 1 / 2) 0
             (selectionChanged Binance Crypto ''BTCUSDT'' (\<lambda>_. 1 / 2) 0
               (reconnect Demo Crypto ''BTCUSDT'' (\<lambda>_. 1 / 2) 0
                 (connect Demo Crypto ''BTCUSDT'' (\<lambda>_. 1 / 2) 0 initialFeed))))))) = [] \<and>
   map_sum id trades
     (wsOnMessage 0
       \<lparr>d_e = ''trade'', d_b = [], d_a = [], d_t = 42, d_p = 100, d_q = 2, d_T = 7,
        d_m = True\<rparr>
       (wsOnOpen 0
         (selectionChanged Demo Stock ''AAPL'' (\<lambda>_. 1 / 2) 0
           (selectionChanged Binance Crypto ''ETHUSDT'' (\<lambda>_. 1 / 2) 0
             (reconnect Binance Crypto ''BTCUSDT'' (\<lambda>_. 1 / 2) 0
               (selectionChanged Binance Crypto ''BTCUSDT'' (\<lambda>_. 1 / 2) 0
                 (reconnect Demo Crypto ''BTCUSDT'' (\<lambda>_. 1 / 2) 0
                   (connect Demo Crypto ''BTCUSDT'' (\<lambda>_. 1 / 2) 0 initialFeed))))))))
     = Inr [\<lparr>trade_id = ''42'', price = 100, amount = 2, time = 7, isBuyerMaker = True\<rparr>]"
proof -
  have "toString 42 = ''42''" by code_simp
  then show ?thesis
    by (simp add: wsOnMessage_def onmessage_def processTrade_def pushTrade_def wsOnOpen_def
        selectionChanged_def reconnect_def connect_def closeExisting_def effectCleanup_def
        connectDemo_def connectBinance_def wsClose_def clearInterval_def clearTimeout_def initialFeed_def Let_def)
qed

text \<open>
  A handler whose render had another provider than Binance leaves the stored book and
  the trade list as they are, and so does every handler for a message that is neither
  a depth update nor a trade.
\<close>

theorem unmatched_message_leaves_state:
  "(p \<noteq> Binance \<or> d_e msg \<noteq> ''depthUpdate'' \<longrightarrow>
      processOrderBookUpdate p book msg st = Inr st) \<and>
   (p \<noteq> Binance \<or> d_e msg \<noteq> ''trade'' \<longrightarrow> processTrade p msg ts = ts) \<and>
   (p \<noteq> Binance \<or> (d_e msg \<noteq> ''depthUpdate'' \<and> d_e msg \<noteq> ''trade'') \<longrightarrow>
      onmessage p book msg st = Inr st)"
  by (auto simp: processOrderBookUpdate_def processTrade_def onmessage_def)

theorem unmatched_message_leaves_state_witness:
  "onmessage Binance None
     \<lparr>d_e = ''aggTrade'', d_b = [], d_a = [], d_t = 1, d_p = 1, d_q = 1, d_T = 1, d_m = False\<rparr>
     initialFeed = Inr initialFeed \<and>
   processTrade Binance
     \<lparr>d_e = ''aggTrade'', d_b = [], d_a = [], d_t = 1, d_p = 1, d_q = 1, d_T = 1, d_m = False\<rparr> [] = []"
  using unmatched_message_leaves_state
    [of Binance "\<lparr>d_e = ''aggTrade'', d_b = [], d_a = [], d_t = 1, d_p = 1, d_q = 1, d_T = 1, d_m = False\<rparr>"
        None initialFeed "[]"]
  by simp

subsection \<open>Depth update on a handler without a book\<close>

text \<open>
  A depth update handled by a callback whose render had no book throws and stores
  nothing.
\<close>

theorem depth_update_without_book_throws:
  "d_e msg = ''depthUpdate'' \<Longrightarrow> processOrderBookUpdate Binance None msg st = Inl TypeError"
  by (simp add: processOrderBookUpdate_def)

theorem depth_update_without_book_throws_witness:
  "wsOnMessage 0
     \<lparr>d_e = ''depthUpdate'', d_b = [(2, 0)], d_a = [], d_t = 0, d_p = 0, d_q = 0, d_T = 0,
      d_m = False\<rparr> (connectBinance Binance ''BTCUSDT'' initialFeed) = Inl TypeError"
  using depth_update_without_book_throws
    [of "\<lparr>d_e = ''depthUpdate'', d_b = [(2, 0)], d_a = [], d_t = 0, d_p = 0, d_q = 0, d_T = 0,
          d_m = False\<rparr>"
        "connectBinance Binance ''BTCUSDT'' initialFeed"]
  by (simp add: wsOnMessage_def onmessage_def connectBinance_def initialFeed_def)

end
